theory Spec2Isabelle
  imports Main "HOL-Library.Word"
begin

section \<open>stat.go: the request counter\<close>

text \<open>
  Go's \<^verbatim>\<open>int\<close> is a 64-bit machine integer on the usual platforms: the counters are
  \<open>64 word\<close>, and \<open>+ 1\<close> wraps as \<^verbatim>\<open>+= 1\<close> does. \<^verbatim>\<open>time.Time\<close> is a
  number of nanoseconds. The embedded \<^verbatim>\<open>sync.Mutex\<close> makes every \<^verbatim>\<open>Increment\<close>
  run alone; the model is sequential, so each call is one atomic step.
\<close>

type_synonym time = int

record Stat =
  LastMinReqs :: "64 word"
  LastHourReqs :: "64 word"
  LastDayReqs :: "64 word"
  LastWeekReqs :: "64 word"
  TotalReqs :: "64 word"
  Reqs :: "string \<rightharpoonup> 64 word"
  ServerStartedAt :: time

text \<open>\<^verbatim>\<open>NewStat\<close>; the argument is what \<^verbatim>\<open>time.Now()\<close> returns.\<close>

definition NewStat :: "time \<Rightarrow> Stat" where
  "NewStat now =
     \<lparr>LastMinReqs = 0, LastHourReqs = 0, LastDayReqs = 0, LastWeekReqs = 0, TotalReqs = 0,
      Reqs = Map.empty, ServerStartedAt = now\<rparr>"

text \<open>
  \<^verbatim>\<open>GetUptime\<close>: \<^verbatim>\<open>time.Since(s.ServerStartedAt)\<close>, at the time \<open>now\<close>. The result
  is a \<^verbatim>\<open>time.Duration\<close>, a signed 64-bit number of nanoseconds: a difference beyond
  its range comes back as the largest, or the smallest, duration.
\<close>

definition GetUptime :: "Stat \<Rightarrow> time \<Rightarrow> int" where
  "GetUptime s now = max (- (2 ^ 63)) (min (2 ^ 63 - 1) (now - ServerStartedAt s))"

text \<open>\<^verbatim>\<open>strconv.Itoa\<close>: the decimal digits, with a minus sign for a negative number.\<close>

definition digit_char :: "nat \<Rightarrow> char" where
  "digit_char d = ''0123456789'' ! d"

function digits :: "nat \<Rightarrow> string" where
  "digits n = (if n < 10 then [digit_char n] else digits (n div 10) @ [digit_char (n mod 10)])"
  by pat_completeness auto
termination
  by (relation "measure id") auto

declare digits.simps [simp del]

definition Itoa :: "int \<Rightarrow> string" where
  "Itoa i = (if i < 0 then CHR ''-'' # digits (nat (- i)) else digits (nat i))"

text \<open>
  A Go map read gives the zero value for a key that is absent, so
  \<^verbatim>\<open>s.Reqs[status] += 1\<close> stores 1 under a new key.
\<close>

definition map_get :: "('k \<rightharpoonup> 64 word) \<Rightarrow> 'k \<Rightarrow> 64 word" where
  "map_get m k = (case m k of None \<Rightarrow> 0 | Some v \<Rightarrow> v)"

text \<open>\<^verbatim>\<open>Increment\<close>; the duration is taken and not used, as in the source.\<close>

definition Increment :: "int \<Rightarrow> int \<Rightarrow> Stat \<Rightarrow> Stat" where
  "Increment statusCode duration s =
     (let s1 = s\<lparr>TotalReqs := TotalReqs s + 1\<rparr>;
          status = Itoa statusCode
      in s1\<lparr>Reqs := (Reqs s1)(status \<mapsto> map_get (Reqs s1) status + 1)\<rparr>)"

text \<open>A run of \<^verbatim>\<open>Increment\<close> calls, each with its status code and duration.\<close>

fun Increment_all :: "(int \<times> int) list \<Rightarrow> Stat \<Rightarrow> Stat" where
  "Increment_all [] s = s"
| "Increment_all ((code, d) # calls) s = Increment_all calls (Increment code d s)"

section \<open>Package regexp: the library under the route table\<close>

text \<open>
  A route holds a \<^verbatim>\<open>*regexp.Regexp\<close>, and the dispatcher calls its
  \<^verbatim>\<open>FindStringSubmatch\<close>. Both belong to Go's standard library. They are modelled here
  for a fragment of its syntax: literal characters, \<^verbatim>\<open>.\<close>, classes of letters and digits
  with ranges (\<^verbatim>\<open>[a-zA-Z]\<close>, \<^verbatim>\<open>[^0-9]\<close>), capture groups, \<^verbatim>\<open>|\<close>, the greedy
  \<^verbatim>\<open>*\<close>, \<^verbatim>\<open>+\<close> and \<^verbatim>\<open>?\<close>, the anchors \<^verbatim>\<open>^\<close> and \<^verbatim>\<open>$\<close> (beginning and
  end of the text, as without the flag m), and a backslash before a punctuation character.
  An expression outside the fragment (flags and non-capturing groups, counted repetition,
  lazy operators, escapes such as \<^verbatim>\<open>\d\<close>, a repetition of \<^verbatim>\<open>^\<close>, of \<^verbatim>\<open>$\<close> or of
  a body that can match the empty string) compiles to \<open>Unsupported\<close>: the model says
  nothing about it. Characters are bytes, so the fragment is meant for ASCII text.
\<close>

datatype regex =
    Empty
  | Lit char
  | AnyChar
  | CharClass bool "(char \<times> char) list"
  | Bol
  | Eol
  | Seq regex regex
  | Alt regex regex
  | Star regex
  | Plus regex
  | Opt regex
  | Group nat regex

datatype re_error = Syntax_Error string | Unsupported

text \<open>The lexer: one token per operator, literal or class.\<close>

datatype token =
    TLit char | TDot | TClass bool "(char \<times> char) list" | TBol | TEol
  | TLParen | TRParen | TBar | TStar | TPlus | TQuest

definition is_alnum :: "char \<Rightarrow> bool" where
  "is_alnum c = (let n = of_char c :: nat in
     (48 \<le> n \<and> n \<le> 57) \<or> (65 \<le> n \<and> n \<le> 90) \<or> (97 \<le> n \<and> n \<le> 122))"

definition is_punct :: "char \<Rightarrow> bool" where
  "is_punct c = (let n = of_char c :: nat in n < 128 \<and> \<not> is_alnum c)"

fun class_items :: "char list \<Rightarrow> re_error + (char \<times> char) list" where
  "class_items [] = Inr []"
| "class_items (lo # m # hi # cs) =
     (if \<not> is_alnum lo then Inl Unsupported
      else if m = CHR ''-'' then
        (if \<not> is_alnum hi then Inl Unsupported
         else if (of_char hi :: nat) < of_char lo then Inl (Syntax_Error ''invalid character class range'')
         else (case class_items cs of Inl e \<Rightarrow> Inl e | Inr its \<Rightarrow> Inr ((lo, hi) # its)))
      else (case class_items (m # hi # cs) of Inl e \<Rightarrow> Inl e | Inr its \<Rightarrow> Inr ((lo, lo) # its)))"
| "class_items (c # cs) =
     (if \<not> is_alnum c then Inl Unsupported
      else (case class_items cs of Inl e \<Rightarrow> Inl e | Inr its \<Rightarrow> Inr ((c, c) # its)))"

definition mk_class :: "char list \<Rightarrow> re_error + token" where
  "mk_class raw =
     (let neg = (raw \<noteq> [] \<and> hd raw = CHR ''^'');
          body = (if neg then tl raw else raw)
      in if body = [] then Inl Unsupported
         else (case class_items body of Inl e \<Rightarrow> Inl e | Inr its \<Rightarrow> Inr (TClass neg its)))"

fun lex :: "char list \<Rightarrow> char list option \<Rightarrow> re_error + token list" where
  "lex [] None = Inr []"
| "lex [] (Some raw) = Inl (Syntax_Error ''missing closing ]'')"
| "lex (c # cs) (Some raw) =
     (if c = CHR '']'' then
        (case mk_class (rev raw) of
           Inl e \<Rightarrow> Inl e
         | Inr t \<Rightarrow> (case lex cs None of Inl e \<Rightarrow> Inl e | Inr ts \<Rightarrow> Inr (t # ts)))
      else lex cs (Some (c # raw)))"
| "lex (c # cs) None =
     (if c = CHR ''['' then lex cs (Some [])
      else if c = CHR 0x5C then
        (case cs of
           [] \<Rightarrow> Inl (Syntax_Error ''trailing backslash at end of expression'')
         | d # ds \<Rightarrow>
             if is_punct d then (case lex ds None of Inl e \<Rightarrow> Inl e | Inr ts \<Rightarrow> Inr (TLit d # ts))
             else Inl Unsupported)
      else if c = CHR ''{'' then Inl Unsupported
      else if c = CHR ''('' \<and> cs \<noteq> [] \<and> hd cs = CHR ''?'' then Inl Unsupported
      else
        (case lex cs None of
           Inl e \<Rightarrow> Inl e
         | Inr ts \<Rightarrow>
             Inr ((if c = CHR ''.'' then TDot
                   else if c = CHR ''^'' then TBol
                   else if c = CHR ''$'' then TEol
                   else if c = CHR ''('' then TLParen
                   else if c = CHR '')'' then TRParen
                   else if c = CHR ''|'' then TBar
                   else if c = CHR ''*'' then TStar
                   else if c = CHR ''+'' then TPlus
                   else if c = CHR ''?'' then TQuest
                   else TLit c) # ts)))"


text \<open>
  The parser keeps a stack of open groups, as the library's own parser does. A frame
  holds the alternatives finished so far and the atoms of the one being read, last
  atom first. Alternation binds weakest: \<^verbatim>\<open>|\<close> closes the whole concatenation read
  since the enclosing parenthesis (or since the beginning of the expression).
\<close>

fun seq_of :: "regex list \<Rightarrow> regex" where
  "seq_of [] = Empty"
| "seq_of [a] = a"
| "seq_of (a # as) = Seq a (seq_of as)"

fun alt_of :: "regex list \<Rightarrow> regex" where
  "alt_of [] = Empty"
| "alt_of [a] = a"
| "alt_of (a # as) = Alt a (alt_of as)"

record frame =
  grp :: nat
  alts :: "regex list"
  cur :: "regex list"

definition close_frame :: "frame \<Rightarrow> regex" where
  "close_frame f = alt_of (alts f @ [seq_of (rev (cur f))])"

definition push_atom :: "regex \<Rightarrow> frame \<Rightarrow> frame" where
  "push_atom a f = f\<lparr>cur := a # cur f\<rparr>"

text \<open>Can the expression match the empty string?\<close>

primrec nullable :: "regex \<Rightarrow> bool" where
  "nullable Empty = True"
| "nullable (Lit c) = False"
| "nullable AnyChar = False"
| "nullable (CharClass neg its) = False"
| "nullable Bol = True"
| "nullable Eol = True"
| "nullable (Seq a b) = (nullable a \<and> nullable b)"
| "nullable (Alt a b) = (nullable a \<or> nullable b)"
| "nullable (Star a) = True"
| "nullable (Plus a) = nullable a"
| "nullable (Opt a) = True"
| "nullable (Group n a) = nullable a"

fun is_repeat :: "regex \<Rightarrow> bool" where
  "is_repeat (Star a) = True"
| "is_repeat (Plus a) = True"
| "is_repeat (Opt a) = True"
| "is_repeat a = False"

definition repeat_op :: "(regex \<Rightarrow> regex) \<Rightarrow> frame \<Rightarrow> re_error + frame" where
  "repeat_op rep f =
     (case cur f of
        [] \<Rightarrow> Inl (Syntax_Error ''missing argument to repetition operator'')
      | a # as \<Rightarrow>
          if is_repeat a \<or> nullable a then Inl Unsupported
          else Inr (f\<lparr>cur := rep a # as\<rparr>))"

fun parse_tokens :: "token list \<Rightarrow> frame \<Rightarrow> frame list \<Rightarrow> nat \<Rightarrow> re_error + regex \<times> nat" where
  "parse_tokens [] f stk n =
     (if stk = [] then Inr (close_frame f, n) else Inl (Syntax_Error ''missing closing )''))"
| "parse_tokens (TLParen # ts) f stk n =
     parse_tokens ts \<lparr>grp = Suc n, alts = [], cur = []\<rparr> (f # stk) (Suc n)"
| "parse_tokens (TRParen # ts) f stk n =
     (case stk of
        [] \<Rightarrow> Inl (Syntax_Error ''unexpected )'')
      | g # stk' \<Rightarrow> parse_tokens ts (push_atom (Group (grp f) (close_frame f)) g) stk' n)"
| "parse_tokens (TBar # ts) f stk n =
     parse_tokens ts (f\<lparr>alts := alts f @ [seq_of (rev (cur f))], cur := []\<rparr>) stk n"
| "parse_tokens (TStar # ts) f stk n =
     (case repeat_op Star f of Inl e \<Rightarrow> Inl e | Inr f' \<Rightarrow> parse_tokens ts f' stk n)"
| "parse_tokens (TPlus # ts) f stk n =
     (case repeat_op Plus f of Inl e \<Rightarrow> Inl e | Inr f' \<Rightarrow> parse_tokens ts f' stk n)"
| "parse_tokens (TQuest # ts) f stk n =
     (case repeat_op Opt f of Inl e \<Rightarrow> Inl e | Inr f' \<Rightarrow> parse_tokens ts f' stk n)"
| "parse_tokens (TLit c # ts) f stk n = parse_tokens ts (push_atom (Lit c) f) stk n"
| "parse_tokens (TDot # ts) f stk n = parse_tokens ts (push_atom AnyChar f) stk n"
| "parse_tokens (TClass neg its # ts) f stk n = parse_tokens ts (push_atom (CharClass neg its) f) stk n"
| "parse_tokens (TBol # ts) f stk n = parse_tokens ts (push_atom Bol f) stk n"
| "parse_tokens (TEol # ts) f stk n = parse_tokens ts (push_atom Eol f) stk n"

text \<open>A compiled expression: the syntax tree and the number of capture groups.\<close>

record Regexp =
  prog :: regex
  numSubexp :: nat

definition regexp_Compile :: "string \<Rightarrow> re_error + Regexp" where
  "regexp_Compile expr =
     (case lex expr None of
        Inl e \<Rightarrow> Inl e
      | Inr ts \<Rightarrow>
          (case parse_tokens ts \<lparr>grp = 0, alts = [], cur = []\<rparr> [] 0 of
             Inl e \<Rightarrow> Inl e
           | Inr (r, n) \<Rightarrow> Inr \<lparr>prog = r, numSubexp = n\<rparr>))"

text \<open>
  Matching. \<open>rmatch r s\<close> lists every way \<open>r\<close> can match from the state \<open>s\<close>, in the
  order a backtracking search finds them: the left alternative first, a greedy operator
  with more iterations first. The library promises the match that begins leftmost and,
  among those, the one such a search finds first. The parser admits a repetition only
  of a body that cannot match the empty string, so an iteration of \<^verbatim>\<open>*\<close> consumes at
  least one character and the number of characters left bounds the iterations.
\<close>

record mstate =
  pos :: nat
  rest :: string
  caps :: "(nat \<times> string) list"

definition advance :: "mstate \<Rightarrow> mstate" where
  "advance s = s\<lparr>pos := Suc (pos s), rest := tl (rest s)\<rparr>"

definition in_class :: "bool \<Rightarrow> (char \<times> char) list \<Rightarrow> char \<Rightarrow> bool" where
  "in_class neg its c =
     ((\<exists>(lo, hi) \<in> set its. (of_char lo :: nat) \<le> of_char c \<and> (of_char c :: nat) \<le> of_char hi) \<noteq> neg)"

definition step_char :: "(char \<Rightarrow> bool) \<Rightarrow> mstate \<Rightarrow> mstate list" where
  "step_char p s = (case rest s of [] \<Rightarrow> [] | c # cs \<Rightarrow> if p c then [advance s] else [])"

fun iterate :: "nat \<Rightarrow> (mstate \<Rightarrow> mstate list) \<Rightarrow> mstate \<Rightarrow> mstate list" where
  "iterate 0 f s = [s]"
| "iterate (Suc k) f s =
     concat (map (iterate k f) (filter (\<lambda>s'. pos s < pos s') (f s))) @ [s]"

primrec rmatch :: "regex \<Rightarrow> mstate \<Rightarrow> mstate list" where
  "rmatch Empty s = [s]"
| "rmatch (Lit c) s = step_char (\<lambda>x. x = c) s"
| "rmatch AnyChar s = step_char (\<lambda>x. x \<noteq> CHR 0x0A) s"
| "rmatch (CharClass neg its) s = step_char (in_class neg its) s"
| "rmatch Bol s = (if pos s = 0 then [s] else [])"
| "rmatch Eol s = (if rest s = [] then [s] else [])"
| "rmatch (Seq a b) s = concat (map (rmatch b) (rmatch a s))"
| "rmatch (Alt a b) s = rmatch a s @ rmatch b s"
| "rmatch (Star a) s = iterate (length (rest s)) (rmatch a) s"
| "rmatch (Plus a) s = concat (map (\<lambda>s'. iterate (length (rest s')) (rmatch a) s') (rmatch a s))"
| "rmatch (Opt a) s = rmatch a s @ [s]"
| "rmatch (Group n a) s =
     map (\<lambda>s'. s'\<lparr>caps := (n, take (pos s' - pos s) (rest s)) # caps s'\<rparr>) (rmatch a s)"

text \<open>
  \<^verbatim>\<open>FindStringSubmatch\<close>: \<open>None\<close> is the nil slice. Otherwise index 0 holds the text
  the whole expression matched and index \<open>i\<close> the text of group \<open>i\<close>, empty for a group
  that took no part in the match.
\<close>

definition submatches :: "nat \<Rightarrow> nat \<Rightarrow> string \<Rightarrow> mstate \<Rightarrow> string list" where
  "submatches n p s m =
     take (pos m - p) s # map (\<lambda>i. case map_of (caps m) i of None \<Rightarrow> [] | Some g \<Rightarrow> g) [1..<Suc n]"

fun find_from :: "Regexp \<Rightarrow> nat \<Rightarrow> string \<Rightarrow> string list option" where
  "find_from re p s =
     (case rmatch (prog re) \<lparr>pos = p, rest = s, caps = []\<rparr> of
        m # ms \<Rightarrow> Some (submatches (numSubexp re) p s m)
      | [] \<Rightarrow> (case s of [] \<Rightarrow> None | c # cs \<Rightarrow> find_from re (Suc p) cs))"

definition FindStringSubmatch :: "Regexp \<Rightarrow> string \<Rightarrow> string list option" where
  "FindStringSubmatch re s = find_from re 0 s"

text \<open>
  An expression of the shape \<^verbatim>\<open>^...$\<close>: a concatenation that begins with \<^verbatim>\<open>^\<close> and
  ends with \<^verbatim>\<open>$\<close>. The state \<open>m\<close> continues the state \<open>s\<close> when it has read on in the
  same text.
\<close>

fun ends_eol :: "regex \<Rightarrow> bool" where
  "ends_eol Eol = True"
| "ends_eol (Seq a b) = ends_eol b"
| "ends_eol r = False"

fun anchored :: "regex \<Rightarrow> bool" where
  "anchored (Seq Bol b) = ends_eol b"
| "anchored r = False"

definition spans :: "mstate \<Rightarrow> mstate \<Rightarrow> bool" where
  "spans s m = (pos s \<le> pos m \<and> pos m - pos s \<le> length (rest s) \<and>
     rest m = drop (pos m - pos s) (rest s))"

section \<open>Package net/http: the response writer\<close>

text \<open>
  What the dispatcher uses of \<^verbatim>\<open>http.ResponseWriter\<close>: the header map, the status line
  (\<open>None\<close> until it is written; only the first \<^verbatim>\<open>WriteHeader\<close> counts, and the first
  \<^verbatim>\<open>Write\<close> sends 200 when nothing was sent before) and the body. \<^verbatim>\<open>http.Error\<close>
  sets the content type, writes the status and prints the message on a line. Headers
  that the library adds or removes by itself are left out, and every status code written
  below is one that \<^verbatim>\<open>WriteHeader\<close> accepts.
\<close>

record response =
  header :: "string \<rightharpoonup> string"
  status :: "int option"
  body :: string

definition new_response :: response where
  "new_response = \<lparr>header = Map.empty, status = None, body = []\<rparr>"

definition Header_Set :: "string \<Rightarrow> string \<Rightarrow> response \<Rightarrow> response" where
  "Header_Set k v res = res\<lparr>header := (header res)(k \<mapsto> v)\<rparr>"

definition WriteHeader :: "int \<Rightarrow> response \<Rightarrow> response" where
  "WriteHeader code res = (if status res = None then res\<lparr>status := Some code\<rparr> else res)"

definition Write_bytes :: "string \<Rightarrow> response \<Rightarrow> response" where
  "Write_bytes b res = (let res1 = WriteHeader 200 res in res1\<lparr>body := body res1 @ b\<rparr>)"

definition http_Error :: "string \<Rightarrow> int \<Rightarrow> response \<Rightarrow> response" where
  "http_Error msg code res =
     Write_bytes (msg @ [CHR 0x0A])
       (WriteHeader code
         (Header_Set ''X-Content-Type-Options'' ''nosniff''
           (Header_Set ''Content-Type'' ''text/plain; charset=utf-8'' res)))"

text \<open>The status the client sees once the handler chain is over.\<close>

definition final_status :: "response \<Rightarrow> int" where
  "final_status res = (case status res of None \<Rightarrow> 200 | Some code \<Rightarrow> code)"

section \<open>gower.go: configuration, context, routes\<close>

text \<open>
  \<^verbatim>\<open>Config\<close>. Its field \<^verbatim>\<open>Routes\<close> is kept apart, as the argument \<open>routes\<close> of
  the dispatcher: a route holds a handler, a handler acts on the whole server state, and
  a record cannot hold functions on itself.
\<close>

record Config =
  Port :: int
  Host :: string
  StaticDir :: string
  TemplateDir :: string
  Csrf :: bool
  ColoredLog :: bool
  Debug :: bool

text \<open>The request, as far as the dispatcher reads it: method, \<^verbatim>\<open>URL.Path\<close>, remote address.\<close>

record request =
  Method :: string
  Path :: string
  RemoteAddr :: string

text \<open>
  \<^verbatim>\<open>Context\<close>. \<^verbatim>\<open>Res\<close> is a reference to the response writer of the request, which
  lives in the server state below.
\<close>

record Context =
  Req :: request
  Matches :: "string list"

text \<open>
  Values of type \<^verbatim>\<open>interface{}\<close> handed to a template, and a compiled
  \<^verbatim>\<open>pongo2.Template\<close> as what its \<^verbatim>\<open>Execute\<close> computes from the data: an error or the
  rendered text.
\<close>

datatype iface = AString string | AInt int | ABool bool

type_synonym tdata = "string \<rightharpoonup> iface"

type_synonym template = "tdata \<Rightarrow> string + string"

text \<open>An operand of \<^verbatim>\<open>log.Println\<close>: a string or a \<^verbatim>\<open>time.Duration\<close>.\<close>

datatype log_arg = LStr string | LDur int

text \<open>
  The package variables (\<^verbatim>\<open>ServerConfig\<close>, \<^verbatim>\<open>ServerStat\<close>, \<^verbatim>\<open>templateCache\<close>) and
  the world around them: the response writer of the request in progress, the template
  files (\<open>storage p\<close> is what \<^verbatim>\<open>pongo2.FromFile(p)\<close> returns now: an error, or the
  compiled template), the loads from storage made so far, the log, and the clock that
  \<^verbatim>\<open>time.Now\<close> reads. \<^verbatim>\<open>ServerStat\<close> comes from \<^verbatim>\<open>NewStat\<close>, so its map is never nil.
\<close>

record world =
  ServerConfig :: Config
  ServerStat :: Stat
  templateCache :: "string \<rightharpoonup> template"
  Res :: response
  storage :: "string \<Rightarrow> string + template"
  loads :: "string list"
  logged :: "log_arg list list"
  clock :: time

text \<open>
  A function under execution returns or panics. \<open>Panicked v\<close> carries what
  \<^verbatim>\<open>recover()\<close> returns for the panic: \<open>Some e\<close> is a value, as \<^verbatim>\<open>%s\<close> prints it, and
  \<open>None\<close> is nil, which is what \<^verbatim>\<open>panic(nil)\<close> gives when the program is built with the
  semantics of Go 1.20 and before (from Go 1.21 on \<^verbatim>\<open>recover()\<close> returns a run-time
  error for it, a \<open>Some\<close>). A handler is any function of the context on the server
  state; a nil handler panics when it is called, so it is a handler that panics at once.
  The field \<^verbatim>\<open>method\<close> of a route is \<open>method'\<close> here.
\<close>

datatype outcome = Returned | Panicked "string option"

type_synonym handler = "Context \<Rightarrow> world \<Rightarrow> outcome \<times> world"

record Route =
  re :: Regexp
  method' :: string
  handler :: handler

subsection \<open>Context methods\<close>

text \<open>\<^verbatim>\<open>Write\<close>; \<open>text\<close> is what \<^verbatim>\<open>fmt.Fprint\<close> prints for the arguments.\<close>

definition Write :: "string \<Rightarrow> Context \<Rightarrow> world \<Rightarrow> outcome \<times> world" where
  "Write text c w =
     (Returned, w\<lparr>Res := Write_bytes text (Header_Set ''Content-Type'' ''text/plain'' (Res w))\<rparr>)"

definition pongo2_FromFile :: "string \<Rightarrow> world \<Rightarrow> (string + template) \<times> world" where
  "pongo2_FromFile filepath w = (storage w filepath, w\<lparr>loads := loads w @ [filepath]\<rparr>)"

text \<open>\<^verbatim>\<open>renderTemplate\<close>: \<open>Inl\<close> is a panic, \<open>Inr\<close> the bytes returned.\<close>

definition renderTemplate :: "string \<Rightarrow> tdata \<Rightarrow> world \<Rightarrow> (string + string) \<times> world" where
  "renderTemplate filepath data w =
     (if Debug (ServerConfig w) then
        (case pongo2_FromFile filepath w of
           (Inl err, w1) \<Rightarrow> (Inl err, w1)
         | (Inr newTemplate, w1) \<Rightarrow> (newTemplate data, w1))
      else
        (case templateCache w filepath of
           None \<Rightarrow>
             (case pongo2_FromFile filepath w of
                (Inl err, w1) \<Rightarrow> (Inl err, w1)
              | (Inr newTemplate, w1) \<Rightarrow>
                  (newTemplate data,
                   w1\<lparr>templateCache := (templateCache w1)(filepath \<mapsto> newTemplate)\<rparr>))
         | Some cached \<Rightarrow> (cached data, w)))"

definition WriteTemplate :: "string \<Rightarrow> tdata \<Rightarrow> Context \<Rightarrow> world \<Rightarrow> outcome \<times> world" where
  "WriteTemplate filename data c w =
     (let w1 = w\<lparr>Res := Header_Set ''Content-Type'' ''text/html; charset=utf-8'' (Res w)\<rparr>;
          filepath = TemplateDir (ServerConfig w1) @ ''/'' @ filename
      in case renderTemplate filepath data w1 of
           (Inl err, w2) \<Rightarrow> (Panicked (Some err), w2)
         | (Inr str, w2) \<Rightarrow> (Returned, w2\<lparr>Res := Write_bytes str (Res w2)\<rparr>))"

text \<open>
  \<^verbatim>\<open>WriteJson\<close>; \<open>marshal\<close> is \<^verbatim>\<open>json.Marshal\<close> at the type of the data: an error or
  the encoding.
\<close>

definition WriteJson :: "('a \<Rightarrow> string + string) \<Rightarrow> 'a \<Rightarrow> Context \<Rightarrow> world \<Rightarrow> outcome \<times> world" where
  "WriteJson marshal data c w =
     (let w1 = w\<lparr>Res := Header_Set ''Content-Type'' ''application/json; charset=utf-8'' (Res w)\<rparr>
      in case marshal data of
           Inl err \<Rightarrow> (Panicked (Some err), w1)
         | Inr out \<Rightarrow> (Returned, w1\<lparr>Res := Write_bytes out (Res w1)\<rparr>))"

subsection \<open>Registration\<close>

text \<open>
  \<^verbatim>\<open>NewRoute\<close>: on an error of \<^verbatim>\<open>regexp.Compile\<close> the source calls \<^verbatim>\<open>log.Fatal\<close>,
  which ends the process: \<open>Inl\<close>, and no route comes back.
\<close>

definition NewRoute :: "string \<Rightarrow> string \<Rightarrow> handler \<Rightarrow> re_error + Route" where
  "NewRoute pattern meth h =
     (case regexp_Compile (''^'' @ pattern @ ''$'') of
        Inl err \<Rightarrow> Inl err
      | Inr rx \<Rightarrow> Inr \<lparr>re = rx, method' = meth, handler = h\<rparr>)"

definition RegisterRoute :: "string \<Rightarrow> string \<Rightarrow> handler \<Rightarrow> Route list \<Rightarrow> re_error + Route list" where
  "RegisterRoute path meth fn routes =
     (case NewRoute path meth fn of
        Inl err \<Rightarrow> Inl err
      | Inr route \<Rightarrow> Inr (routes @ [route]))"

definition Get :: "string \<Rightarrow> handler \<Rightarrow> Route list \<Rightarrow> re_error + Route list" where
  "Get path fn routes = RegisterRoute path ''GET'' fn routes"

definition Post :: "string \<Rightarrow> handler \<Rightarrow> Route list \<Rightarrow> re_error + Route list" where
  "Post path fn routes = RegisterRoute path ''POST'' fn routes"

definition Delete :: "string \<Rightarrow> handler \<Rightarrow> Route list \<Rightarrow> re_error + Route list" where
  "Delete path fn routes = RegisterRoute path ''DELETE'' fn routes"

definition Put :: "string \<Rightarrow> handler \<Rightarrow> Route list \<Rightarrow> re_error + Route list" where
  "Put path fn routes = RegisterRoute path ''PUT'' fn routes"

subsection \<open>Dispatch\<close>

definition RED :: "string \<Rightarrow> string" where
  "RED s = CHR 0x1B # ''[1;31m'' @ s @ CHR 0x1B # ''[0m''"

definition GREEN :: "string \<Rightarrow> string" where
  "GREEN s = CHR 0x1B # ''[1;32m'' @ s @ CHR 0x1B # ''[0m''"

definition log_Println :: "log_arg list \<Rightarrow> world \<Rightarrow> world" where
  "log_Println args w = w\<lparr>logged := logged w @ [args]\<rparr>"

definition logRequest :: "string \<Rightarrow> string \<Rightarrow> string \<Rightarrow> bool \<Rightarrow> int \<Rightarrow> world \<Rightarrow> world" where
  "logRequest path meth ip success duration w =
     (let meth1 = (if ColoredLog (ServerConfig w)
                   then (if success then GREEN meth else RED meth)
                   else meth)
      in log_Println [LStr meth1, LStr path, LStr ip, LDur duration] w)"

text \<open>
  The loop of \<^verbatim>\<open>process\<close> over the route table, with its four variables. It leaves
  the list early only through the \<^verbatim>\<open>break\<close>, when pattern and method both match.
\<close>

fun find_route ::
  "Route list \<Rightarrow> request \<Rightarrow> bool \<Rightarrow> bool \<Rightarrow> Route option \<Rightarrow> string list \<Rightarrow>
   bool \<times> bool \<times> Route option \<times> string list" where
  "find_route [] r foundPattern foundMethod routeToExecute foundMatches =
     (foundPattern, foundMethod, routeToExecute, foundMatches)"
| "find_route (route # routes) r foundPattern foundMethod routeToExecute foundMatches =
     (case FindStringSubmatch (re route) (Path r) of
        None \<Rightarrow> find_route routes r foundPattern foundMethod routeToExecute foundMatches
      | Some matches \<Rightarrow>
          (let foundPattern1 = True;
               foundMethod1 = (if foundPattern1 then method' route = Method r else foundMethod)
           in if foundPattern1 \<and> foundMethod1 then (foundPattern1, foundMethod1, Some route, matches)
              else find_route routes r foundPattern1 foundMethod1 routeToExecute foundMatches))"

text \<open>
  The end of \<^verbatim>\<open>process\<close> (the duration, the log line in debug mode, the counter),
  reached on every path that does not panic.
\<close>

definition process_end :: "request \<Rightarrow> int \<Rightarrow> time \<Rightarrow> world \<Rightarrow> world" where
  "process_end r statusCode reqStarted w =
     (let duration = clock w - reqStarted;
          w1 = (if Debug (ServerConfig w)
                then logRequest (Path r) (Method r) (RemoteAddr r) (statusCode = 200) duration w
                else w)
      in w1\<lparr>ServerStat := Increment statusCode duration (ServerStat w1)\<rparr>)"

definition process :: "Route list \<Rightarrow> request \<Rightarrow> world \<Rightarrow> outcome \<times> world" where
  "process routes r w =
     (let reqStarted = clock w in
      case find_route routes r False False None [] of
        (foundPattern, foundMethod, routeToExecute, foundMatches) \<Rightarrow>
          if \<not> foundPattern then
            (Returned, process_end r 404 reqStarted (w\<lparr>Res := http_Error ''Not Found'' 404 (Res w)\<rparr>))
          else if \<not> foundMethod then
            (Returned,
             process_end r 405 reqStarted (w\<lparr>Res := http_Error ''Method not allowed'' 405 (Res w)\<rparr>))
          else
            (case routeToExecute of
               None \<Rightarrow> (Panicked (Some ''invalid memory address or nil pointer dereference''), w)
             | Some route \<Rightarrow>
                 (case handler route \<lparr>Req = r, Matches = foundMatches\<rparr> w of
                    (Panicked err, w1) \<Rightarrow> (Panicked err, w1)
                  | (Returned, w1) \<Rightarrow> (Returned, process_end r 200 reqStarted w1))))"

text \<open>
  \<^verbatim>\<open>Process\<close>: \<^verbatim>\<open>process\<close> under the deferred function. Its \<^verbatim>\<open>recover()\<close> stops
  every panic, and its body runs only when the value recovered is not nil.
\<close>

definition Process :: "Route list \<Rightarrow> request \<Rightarrow> world \<Rightarrow> outcome \<times> world" where
  "Process routes r w =
     (let reqStarted = clock w in
      case process routes r w of
        (Returned, w1) \<Rightarrow> (Returned, w1)
      | (Panicked None, w1) \<Rightarrow> (Returned, w1)
      | (Panicked (Some err), w1) \<Rightarrow>
          (let w2 = log_Println [LStr err] w1;
               meth = Method r @ '' ('' @ err @ '')'';
               w3 = logRequest (Path r) meth (RemoteAddr r) False (clock w2 - reqStarted) w2;
               w4 = w3\<lparr>Res := http_Error ''Server Error'' 500 (Res w3)\<rparr>
           in (Returned, w4\<lparr>ServerStat := Increment 500 (clock w4 - reqStarted) (ServerStat w4)\<rparr>)))"

text \<open>The server state when the first request arrives: \<^verbatim>\<open>init\<close> with the default flags.\<close>

definition init_config :: Config where
  "init_config =
     \<lparr>Port = 8000, Host = '':8000'', StaticDir = ''www/static'', TemplateDir = ''www/templates'',
      Csrf = False, ColoredLog = True, Debug = False\<rparr>"

definition init_world :: world where
  "init_world =
     \<lparr>ServerConfig = init_config, ServerStat = NewStat 0, templateCache = Map.empty,
      Res = new_response, storage = (\<lambda>p. Inl ''no such file or directory''), loads = [],
      logged = [], clock = 0\<rparr>"

text \<open>Registrations in a row, as in \<^verbatim>\<open>main\<close>: the first that fails ends the process.\<close>

fun register_all :: "(Route list \<Rightarrow> re_error + Route list) list \<Rightarrow> Route list \<Rightarrow> re_error + Route list" where
  "register_all [] routes = Inr routes"
| "register_all (reg # regs) routes =
     (case reg routes of Inl err \<Rightarrow> Inl err | Inr routes1 \<Rightarrow> register_all regs routes1)"

section \<open>The application of the README, and other route tables\<close>

definition hello :: handler where
  "hello = Write ''Hello World''"

text \<open>\<^verbatim>\<open>sayHi\<close> reads \<^verbatim>\<open>c.Matches[1]\<close>; an index out of range is a run-time panic.\<close>

definition sayHi :: handler where
  "sayHi c w =
     (if length (Matches c) \<le> 1 then (Panicked (Some ''index out of range''), w)
      else WriteTemplate ''say-hi.html'' [''name'' \<mapsto> AString (Matches c ! 1)] c w)"

definition table :: "(Route list \<Rightarrow> re_error + Route list) list \<Rightarrow> Route list" where
  "table regs = (case register_all regs [] of Inl err \<Rightarrow> [] | Inr routes \<Rightarrow> routes)"

definition readme_routes :: "Route list" where
  "readme_routes = table [Get ''/hello'' hello, Get ''/say-hi/([a-zA-Z]+)'' sayHi]"

text \<open>Two handlers that tell which of them ran.\<close>

definition handlerA :: handler where
  "handlerA = Write ''A''"

definition handlerB :: handler where
  "handlerB = Write ''B''"

text \<open>The same pattern under two methods, GET registered first.\<close>

definition routes_get_post :: "Route list" where
  "routes_get_post = table [Get ''/x'' handlerA, Post ''/x'' handlerB]"

text \<open>Two routes of one method whose patterns overlap on \<^verbatim>\<open>/hello\<close>.\<close>

definition routes_overlap :: "Route list" where
  "routes_overlap = table [Get ''/hello'' handlerA, Get ''/([a-z]+)'' handlerB]"

text \<open>A handler that answers 404 itself, with \<^verbatim>\<open>http.Error(c.Res, "no such user", 404)\<close>.\<close>

definition noSuchUser :: handler where
  "noSuchUser c w = (Returned, w\<lparr>Res := http_Error ''no such user'' 404 (Res w)\<rparr>)"

definition routes_user :: "Route list" where
  "routes_user = table [Get ''/user'' noSuchUser]"

text \<open>A handler that panics.\<close>

definition panicking :: handler where
  "panicking c w = (Panicked (Some ''boom''), w)"

definition routes_panic :: "Route list" where
  "routes_panic = table [Get ''/panic'' panicking]"

text \<open>A handler that writes \<^verbatim>\<open>A\<close> with \<^verbatim>\<open>c.Write\<close> and then panics.\<close>

definition writeThenPanic :: handler where
  "writeThenPanic c w = (Panicked (Some ''boom''), snd (Write ''A'' c w))"

definition routes_partial :: "Route list" where
  "routes_partial = table [Get ''/partial'' writeThenPanic]"

text \<open>A handler that shows what it was given: it writes \<^verbatim>\<open>c.Matches[0]\<close>.\<close>

definition writeMatch0 :: handler where
  "writeMatch0 c w =
     (case Matches c of
        [] \<Rightarrow> (Panicked (Some ''index out of range''), w)
      | m # ms \<Rightarrow> Write m c w)"

text \<open>A pattern with an alternation at its top.\<close>

definition routes_alt :: "Route list" where
  "routes_alt = table [Get ''/a|/b'' writeMatch0]"

text \<open>The template \<^verbatim>\<open>say-hi.html\<close>, compiled, and a world whose storage holds it.\<close>

definition say_hi_template :: template where
  "say_hi_template data =
     (case data ''name'' of
        Some (AString n) \<Rightarrow> Inr (''Hi '' @ n)
      | _ \<Rightarrow> Inr ''Hi '')"

definition readme_world :: world where
  "readme_world =
     init_world\<lparr>storage := (\<lambda>p. if p = ''www/templates/say-hi.html'' then Inr say_hi_template
                                else Inl ''no such file or directory'')\<rparr>"



definition GET :: "string \<Rightarrow> request" where
  "GET p = \<lparr>Method = ''GET'', Path = p, RemoteAddr = ''127.0.0.1:4000''\<rparr>"

definition POST :: "string \<Rightarrow> request" where
  "POST p = \<lparr>Method = ''POST'', Path = p, RemoteAddr = ''127.0.0.1:4000''\<rparr>"

definition PUT :: "string \<Rightarrow> request" where
  "PUT p = \<lparr>Method = ''PUT'', Path = p, RemoteAddr = ''127.0.0.1:4000''\<rparr>"

section \<open>Vocabulary of the properties\<close>

text \<open>A route's pattern matches the path of a request; a route serves a request.\<close>

definition pattern_matches :: "Route \<Rightarrow> request \<Rightarrow> bool" where
  "pattern_matches route r = (FindStringSubmatch (re route) (Path r) \<noteq> None)"

definition serves :: "Route \<Rightarrow> request \<Rightarrow> bool" where
  "serves route r = (pattern_matches route r \<and> method' route = Method r)"

text \<open>
  The call of the handler of the first route, in registration order, that serves the
  request, with the submatches of that route's pattern; no call when no route serves it.
\<close>

definition handler_run :: "Route list \<Rightarrow> request \<Rightarrow> world \<Rightarrow> outcome \<times> world" where
  "handler_run routes r w =
     (case List.find (\<lambda>route. serves route r) routes of
        None \<Rightarrow> (Returned, w)
      | Some route \<Rightarrow>
          (case FindStringSubmatch (re route) (Path r) of
             None \<Rightarrow> (Returned, w)
           | Some matches \<Rightarrow> handler route \<lparr>Req = r, Matches = matches\<rparr> w))"

text \<open>
  The status code the dispatcher settles on for a request: 404, 405, 200 after a handler
  that returned, 500 for a panic.
\<close>

definition verdict :: "Route list \<Rightarrow> request \<Rightarrow> world \<Rightarrow> int" where
  "verdict routes r w =
     (if \<not> (\<exists>route \<in> set routes. pattern_matches route r) then 404
      else if \<not> (\<exists>route \<in> set routes. serves route r) then 405
      else (case fst (handler_run routes r w) of Returned \<Rightarrow> 200 | Panicked v \<Rightarrow> 500))"

section \<open>Properties of the request counter\<close>

lemma Itoa_200: "Itoa 200 = ''200''"
  by (simp add: Itoa_def digits.simps digit_char_def)

lemma Itoa_404: "Itoa 404 = ''404''"
  by (simp add: Itoa_def digits.simps digit_char_def)

lemma Itoa_405: "Itoa 405 = ''405''"
  by (simp add: Itoa_def digits.simps digit_char_def)

lemma Itoa_500: "Itoa 500 = ''500''"
  by (simp add: Itoa_def digits.simps digit_char_def)

lemma Increment_windows:
  "LastMinReqs (Increment c d s) = LastMinReqs s \<and> LastHourReqs (Increment c d s) = LastHourReqs s \<and>
   LastDayReqs (Increment c d s) = LastDayReqs s \<and> LastWeekReqs (Increment c d s) = LastWeekReqs s"
  by (simp add: Increment_def Let_def)

lemma Increment_all_windows:
  "LastMinReqs (Increment_all calls s) = LastMinReqs s \<and>
   LastHourReqs (Increment_all calls s) = LastHourReqs s \<and>
   LastDayReqs (Increment_all calls s) = LastDayReqs s \<and>
   LastWeekReqs (Increment_all calls s) = LastWeekReqs s"
  by (induction calls s rule: Increment_all.induct) (simp_all add: Increment_windows)

lemma Increment_TotalReqs: "TotalReqs (Increment c d s) = TotalReqs s + 1"
  by (simp add: Increment_def Let_def)

lemma Increment_Reqs:
  "Reqs (Increment c d s) = (Reqs s)(Itoa c \<mapsto> map_get (Reqs s) (Itoa c) + 1)"
  by (simp add: Increment_def Let_def)

lemma Increment_ServerStartedAt: "ServerStartedAt (Increment c d s) = ServerStartedAt s"
  by (simp add: Increment_def Let_def)

lemma Increment_bucket:
  "map_get (Reqs (Increment c d s)) (Itoa c) = map_get (Reqs s) (Itoa c) + 1"
  by (simp add: Increment_Reqs map_get_def)

lemma Increment_other: "k \<noteq> Itoa c \<Longrightarrow> Reqs (Increment c d s) k = Reqs s k"
  by (simp add: Increment_Reqs)

lemma NewStat_windows:
  "LastMinReqs (NewStat now) = 0 \<and> LastHourReqs (NewStat now) = 0 \<and>
   LastDayReqs (NewStat now) = 0 \<and> LastWeekReqs (NewStat now) = 0"
  by (simp add: NewStat_def)

lemma sint_succ: "sint (x :: 64 word) < 2 ^ 63 - 1 \<Longrightarrow> sint (x + 1) = sint x + 1"
proof -
  assume a: "sint x < 2 ^ 63 - 1"
  have lo: "- (2 ^ 63) \<le> sint x" using sint_ge [of x] by simp
  have "sint (x + 1) = signed_take_bit 63 (sint x + 1)"
    by (simp add: sint_word_ariths)
  also have "\<dots> = sint x + 1"
    using a lo by (intro signed_take_bit_int_eq_self) simp_all
  finally show ?thesis .
qed

lemma small_cases: "a < (10::nat) \<Longrightarrow> a = 0 \<or> a = 1 \<or> a = 2 \<or> a = 3 \<or> a = 4 \<or> a = 5 \<or> a = 6 \<or> a = 7 \<or> a = 8 \<or> a = 9"
  by arith

lemma digit_char_inj:
  assumes "a < 10" and "b < 10" and "digit_char a = digit_char b"
  shows "a = b"
  using small_cases [OF assms(1)] small_cases [OF assms(2)] assms(3)
  by (elim disjE) (simp_all add: digit_char_def)

lemma digit_char_not_minus:
  assumes "a < 10"
  shows "digit_char a \<noteq> CHR ''-''"
  using small_cases [OF assms] by (elim disjE) (simp_all add: digit_char_def)

lemma digits_nonempty: "digits n \<noteq> []"
  by (subst digits.simps) simp

lemma digits_inj: "digits n = digits m \<Longrightarrow> n = m"
proof (induction n arbitrary: m rule: digits.induct)
  case (1 n)
  show ?case
  proof (cases "n < 10")
    case True
    show ?thesis
    proof (cases "m < 10")
      case True
      with \<open>n < 10\<close> "1.prems" show ?thesis
        by (simp add: digits.simps [of n] digits.simps [of m] digit_char_inj)
    next
      case False
      with \<open>n < 10\<close> "1.prems" digits_nonempty [of "m div 10"] show ?thesis
        by (simp add: digits.simps [of n] digits.simps [of m])
    qed
  next
    case False
    show ?thesis
    proof (cases "m < 10")
      case True
      with \<open>\<not> n < 10\<close> "1.prems" digits_nonempty [of "n div 10"] show ?thesis
        by (simp add: digits.simps [of n] digits.simps [of m])
    next
      case mf: False
      from False mf "1.prems"
      have eq: "digits (n div 10) = digits (m div 10)" "digit_char (n mod 10) = digit_char (m mod 10)"
        by (simp_all add: digits.simps [of n] digits.simps [of m])
      from "1.IH" [OF False eq(1)] have "n div 10 = m div 10" .
      moreover from eq(2) have "n mod 10 = m mod 10"
        by (intro digit_char_inj) simp_all
      ultimately show ?thesis
        by (metis div_mult_mod_eq)
    qed
  qed
qed

lemma hd_digits: "hd (digits n) \<noteq> CHR ''-''"
proof (induction n rule: digits.induct)
  case (1 n)
  show ?case
  proof (cases "n < 10")
    case True
    then show ?thesis by (simp add: digits.simps [of n] digit_char_not_minus)
  next
    case False
    with "1.IH" digits_nonempty [of "n div 10"] show ?thesis
      by (simp add: digits.simps [of n])
  qed
qed

lemma Itoa_inj: "Itoa a = Itoa b \<Longrightarrow> a = b"
proof -
  assume eq: "Itoa a = Itoa b"
  have neg: "\<And>x y. CHR ''-'' # digits x \<noteq> digits y"
  proof
    fix x y assume "CHR ''-'' # digits x = digits y"
    then have "hd (digits y) = CHR ''-''" by (metis list.sel(1))
    then show False using hd_digits by blast
  qed
  show ?thesis
  proof (cases "a < 0")
    case True
    show ?thesis
    proof (cases "b < 0")
      case True
      with \<open>a < 0\<close> eq have "nat (- a) = nat (- b)" by (simp add: Itoa_def digits_inj)
      with True \<open>a < 0\<close> show ?thesis by simp
    next
      case False
      with \<open>a < 0\<close> eq neg show ?thesis by (simp add: Itoa_def)
    qed
  next
    case False
    show ?thesis
    proof (cases "b < 0")
      case True
      with \<open>\<not> a < 0\<close> eq neg [of "nat (- b)" "nat a"] show ?thesis by (simp add: Itoa_def)
    next
      case bf: False
      with False eq have "nat a = nat b" by (simp add: Itoa_def digits_inj)
      with False bf show ?thesis by simp
    qed
  qed
qed

text \<open>
  C7. \<^verbatim>\<open>Increment(statusCode, duration)\<close> adds one to the total and to the count
  under the decimal string of \<open>statusCode\<close>, which is present afterwards; the count of
  every other key, hence of every other status code, the start time and the four
  windowed fields stay as they were. From \<^verbatim>\<open>NewStat\<close> on, any run of
  \<^verbatim>\<open>Increment\<close> calls leaves the windowed fields at zero. The additions are Go's: they
  wrap at the largest \<^verbatim>\<open>int\<close>, and below it the total read as a signed number grows by
  one.
\<close>

theorem Increment_frame:
  "TotalReqs (Increment statusCode duration s) = TotalReqs s + 1 \<and>
   Reqs (Increment statusCode duration s) (Itoa statusCode) =
     Some (map_get (Reqs s) (Itoa statusCode) + 1) \<and>
   (\<forall>k. k \<noteq> Itoa statusCode \<longrightarrow> Reqs (Increment statusCode duration s) k = Reqs s k) \<and>
   (\<forall>code. code \<noteq> statusCode \<longrightarrow>
      Reqs (Increment statusCode duration s) (Itoa code) = Reqs s (Itoa code)) \<and>
   ServerStartedAt (Increment statusCode duration s) = ServerStartedAt s \<and>
   LastMinReqs (Increment statusCode duration s) = LastMinReqs s \<and>
   LastHourReqs (Increment statusCode duration s) = LastHourReqs s \<and>
   LastDayReqs (Increment statusCode duration s) = LastDayReqs s \<and>
   LastWeekReqs (Increment statusCode duration s) = LastWeekReqs s \<and>
   LastMinReqs (Increment_all calls (NewStat now)) = 0 \<and>
   LastHourReqs (Increment_all calls (NewStat now)) = 0 \<and>
   LastDayReqs (Increment_all calls (NewStat now)) = 0 \<and>
   LastWeekReqs (Increment_all calls (NewStat now)) = 0 \<and>
   (sint (TotalReqs s) < 2 ^ 63 - 1 \<longrightarrow>
      sint (TotalReqs (Increment statusCode duration s)) = sint (TotalReqs s) + 1)"
proof -
  have other: "\<forall>code. code \<noteq> statusCode \<longrightarrow>
      Reqs (Increment statusCode duration s) (Itoa code) = Reqs s (Itoa code)"
  proof (intro allI impI)
    fix code :: int
    assume "code \<noteq> statusCode"
    then have "Itoa code \<noteq> Itoa statusCode" using Itoa_inj by blast
    then show "Reqs (Increment statusCode duration s) (Itoa code) = Reqs s (Itoa code)"
      by (rule Increment_other)
  qed
  have signed: "sint (TotalReqs s) < 2 ^ 63 - 1 \<longrightarrow>
      sint (TotalReqs (Increment statusCode duration s)) = sint (TotalReqs s) + 1"
    by (simp add: Increment_TotalReqs sint_succ)
  have zero: "LastMinReqs (Increment_all calls (NewStat now)) = 0 \<and>
      LastHourReqs (Increment_all calls (NewStat now)) = 0 \<and>
      LastDayReqs (Increment_all calls (NewStat now)) = 0 \<and>
      LastWeekReqs (Increment_all calls (NewStat now)) = 0"
    by (simp add: Increment_all_windows NewStat_windows)
  show ?thesis
    using other signed zero
    by (simp add: Increment_TotalReqs Increment_Reqs Increment_ServerStartedAt Increment_windows)
qed

theorem Increment_frame_witness:
  "TotalReqs (Increment 404 3 (Increment 200 7 (NewStat 5))) = 2 \<and>
   Reqs (Increment 404 3 (Increment 200 7 (NewStat 5))) ''404'' = Some 1 \<and>
   Reqs (Increment 404 3 (Increment 200 7 (NewStat 5))) ''200'' = Some 1 \<and>
   Reqs (Increment 404 3 (Increment 200 7 (NewStat 5))) ''500'' = None \<and>
   ServerStartedAt (Increment 404 3 (Increment 200 7 (NewStat 5))) = 5 \<and>
   sint (TotalReqs (Increment 404 3 (Increment 200 7 (NewStat 5)))) = 2"
  using Increment_frame [of 404 3 "Increment 200 7 (NewStat 5)" "[]" 0]
    Increment_frame [of 200 7 "NewStat 5" "[]" 0]
  by (simp add: Itoa_404 Itoa_200 NewStat_def map_get_def)

section \<open>Properties of the regular expressions\<close>

text \<open>
  A match has one entry more than the expression has groups. An expression of the shape
  \<^verbatim>\<open>^...$\<close> matches the whole text or nothing: index 0 of a match is the text.
\<close>

lemma find_from_length: "find_from rx p s = Some ms \<Longrightarrow> length ms = Suc (numSubexp rx)"
proof (induction rx p s rule: find_from.induct)
  case (1 rx p s)
  show ?case
  proof (cases "rmatch (prog rx) \<lparr>pos = p, rest = s, caps = []\<rparr>")
    case Nil
    with "1.prems" obtain c cs where s: "s = c # cs" and "find_from rx (Suc p) cs = Some ms"
      by (cases s) simp_all
    with "1.IH" [OF Nil s] show ?thesis by simp
  next
    case (Cons m rest')
    with "1.prems" show ?thesis by (auto simp: submatches_def)
  qed
qed

lemma FindStringSubmatch_length:
  "FindStringSubmatch rx s = Some ms \<Longrightarrow> ms \<noteq> [] \<and> length ms = Suc (numSubexp rx)"
  using find_from_length [of rx 0 s ms] by (auto simp: FindStringSubmatch_def)

lemma spans_refl: "spans s s"
  by (simp add: spans_def)

lemma spans_trans: "spans s m \<Longrightarrow> spans m n \<Longrightarrow> spans s n"
  by (auto simp: spans_def)

lemma spans_caps: "spans s m \<Longrightarrow> spans s (m\<lparr>caps := c\<rparr>)"
  by (simp add: spans_def)

lemma step_char_spans: "m \<in> set (step_char p s) \<Longrightarrow> spans s m"
  by (cases "rest s") (auto simp: step_char_def advance_def spans_def drop_Suc split: if_splits)

lemma iterate_spans:
  "(\<And>s m. m \<in> set (f s) \<Longrightarrow> spans s m) \<Longrightarrow> m \<in> set (iterate k f s) \<Longrightarrow> spans s m"
proof (induction k arbitrary: s m)
  case 0
  then show ?case by (simp add: spans_refl)
next
  case (Suc k)
  from Suc.prems(2) consider "m = s" | s' where "s' \<in> set (f s)" "m \<in> set (iterate k f s')"
    by auto
  then show ?case
  proof cases
    case 1
    then show ?thesis by (simp add: spans_refl)
  next
    case 2
    from Suc.prems(1) [OF 2(1)] Suc.IH [OF Suc.prems(1) 2(2)] show ?thesis
      by (rule spans_trans)
  qed
qed

lemma rmatch_spans: "m \<in> set (rmatch r s) \<Longrightarrow> spans s m"
proof (induction r arbitrary: s m)
  case (Seq a b)
  from Seq.prems obtain x where "x \<in> set (rmatch a s)" "m \<in> set (rmatch b x)" by auto
  with Seq.IH show ?case by (blast intro: spans_trans)
next
  case (Star a)
  then show ?case using iterate_spans [of "rmatch a"] by auto
next
  case (Plus a)
  from Plus.prems obtain s' where "s' \<in> set (rmatch a s)"
    and "m \<in> set (iterate (length (rest s')) (rmatch a) s')" by auto
  with Plus.IH iterate_spans [of "rmatch a" m "length (rest s')" s'] show ?case
    by (blast intro: spans_trans)
next
  case (Group n a)
  then show ?case by (auto intro: spans_caps)
qed (auto simp: spans_refl step_char_spans split: if_splits)

lemma ends_eol_rest: "ends_eol r \<Longrightarrow> m \<in> set (rmatch r s) \<Longrightarrow> rest m = []"
  by (induction r arbitrary: s m rule: ends_eol.induct) (auto split: if_splits)

lemma anchored_later: "anchored (prog rx) \<Longrightarrow> 0 < p \<Longrightarrow> find_from rx p s = None"
proof (induction s arbitrary: p)
  case Nil
  then show ?case by (cases "prog rx" rule: anchored.cases) simp_all
next
  case (Cons c cs)
  from Cons.prems have "rmatch (prog rx) \<lparr>pos = p, rest = c # cs, caps = []\<rparr> = []"
    by (cases "prog rx" rule: anchored.cases) simp_all
  with Cons.IH [OF Cons.prems(1), of "Suc p"] show ?case by simp
qed

lemma anchored_whole:
  assumes "anchored (prog rx)" and "FindStringSubmatch rx s = Some ms"
  shows "hd ms = s"
proof (cases "rmatch (prog rx) \<lparr>pos = 0, rest = s, caps = []\<rparr>")
  case Nil
  with assms(2) obtain c cs where "s = c # cs" "find_from rx (Suc 0) cs = Some ms"
    by (cases s) (simp_all add: FindStringSubmatch_def)
  with anchored_later [OF assms(1), of "Suc 0" cs] show ?thesis by simp
next
  case (Cons m more)
  then have mem: "m \<in> set (rmatch (prog rx) \<lparr>pos = 0, rest = s, caps = []\<rparr>)" by simp
  from assms(1) obtain b where pr: "prog rx = Seq Bol b" and e: "ends_eol b"
    by (cases "prog rx" rule: anchored.cases) simp_all
  from mem pr have "m \<in> set (rmatch b \<lparr>pos = 0, rest = s, caps = []\<rparr>)" by simp
  with e have r: "rest m = []" by (rule ends_eol_rest)
  from rmatch_spans [OF mem] have "pos m \<le> length s" "rest m = drop (pos m) s"
    by (simp_all add: spans_def)
  with r have "pos m = length s" by simp
  with assms(2) Cons show ?thesis by (auto simp: FindStringSubmatch_def submatches_def)
qed

section \<open>Properties of the dispatcher\<close>

text \<open>
  The loop over the routes, and \<^verbatim>\<open>process\<close> and \<^verbatim>\<open>Process\<close> on each of their paths.
\<close>

lemma find_route_none:
  "\<forall>route \<in> set routes. \<not> pattern_matches route r \<Longrightarrow>
   find_route routes r fp fm rte ms = (fp, fm, rte, ms)"
  by (induction routes) (simp_all add: pattern_matches_def)

lemma find_route_unserved:
  "\<forall>route \<in> set routes. \<not> serves route r \<Longrightarrow>
   find_route routes r fp fm rte ms =
     (fp \<or> (\<exists>route \<in> set routes. pattern_matches route r),
      (if \<exists>route \<in> set routes. pattern_matches route r then False else fm), rte, ms)"
proof (induction routes arbitrary: fp fm)
  case Nil
  then show ?case by simp
next
  case (Cons a routes)
  then have rest: "\<forall>route \<in> set routes. \<not> serves route r" and a: "\<not> serves a r" by simp_all
  show ?case
  proof (cases "FindStringSubmatch (re a) (Path r)")
    case None
    then show ?thesis using Cons.IH [OF rest] by (simp add: pattern_matches_def)
  next
    case (Some matches)
    with a have "method' a \<noteq> Method r" by (simp add: serves_def pattern_matches_def)
    with Some show ?thesis using Cons.IH [OF rest, of True False]
      by (simp add: pattern_matches_def)
  qed
qed

lemma find_route_served:
  "\<forall>route \<in> set pre. \<not> serves route r \<Longrightarrow>
   FindStringSubmatch (re b) (Path r) = Some matches \<Longrightarrow> method' b = Method r \<Longrightarrow>
   find_route (pre @ b # post) r fp fm rte ms = (True, True, Some b, matches)"
proof (induction pre arbitrary: fp fm)
  case Nil
  then show ?case by simp
next
  case (Cons a pre)
  then have rest: "\<forall>route \<in> set pre. \<not> serves route r" and a: "\<not> serves a r" by simp_all
  show ?case
  proof (cases "FindStringSubmatch (re a) (Path r)")
    case None
    then show ?thesis using Cons.IH [OF rest Cons.prems(2,3)] by simp
  next
    case (Some m)
    with a have "method' a \<noteq> Method r" by (simp add: serves_def pattern_matches_def)
    with Some show ?thesis using Cons.IH [OF rest Cons.prems(2,3)] by simp
  qed
qed

lemma find_first:
  "List.find P xs = Some b \<Longrightarrow> \<exists>pre post. xs = pre @ b # post \<and> P b \<and> (\<forall>a \<in> set pre. \<not> P a)"
proof (induction xs)
  case Nil
  then show ?case by simp
next
  case (Cons x xs)
  show ?case
  proof (cases "P x")
    case True
    with Cons.prems have "x = b" by simp
    with True have "x # xs = [] @ b # xs \<and> P b \<and> (\<forall>a \<in> set []. \<not> P a)" by simp
    then show ?thesis by blast
  next
    case False
    with Cons obtain pre post where "xs = pre @ b # post" "P b" "\<forall>a \<in> set pre. \<not> P a"
      by auto
    with False have "x # xs = (x # pre) @ b # post \<and> P b \<and> (\<forall>a \<in> set (x # pre). \<not> P a)"
      by simp
    then show ?thesis by blast
  qed
qed

lemma find_none: "List.find P xs = None \<Longrightarrow> \<forall>a \<in> set xs. \<not> P a"
  by (simp add: find_None_iff)

lemma find_some_ex: "\<exists>a \<in> set xs. P a \<Longrightarrow> \<exists>b. List.find P xs = Some b"
  by (cases "List.find P xs") (auto simp: find_None_iff)

lemma process_end_ServerStat:
  "ServerStat (process_end r c t w) = Increment c (clock w - t) (ServerStat w)"
  by (simp add: process_end_def logRequest_def log_Println_def Let_def)

lemma process_end_Res: "Res (process_end r c t w) = Res w"
  by (simp add: process_end_def logRequest_def log_Println_def Let_def)

lemma process_end_cache: "templateCache (process_end r c t w) = templateCache w"
  by (simp add: process_end_def logRequest_def log_Println_def Let_def)

lemma process_not_found:
  assumes "\<forall>route \<in> set routes. \<not> pattern_matches route r"
  shows "process routes r w =
    (Returned, process_end r 404 (clock w) (w\<lparr>Res := http_Error ''Not Found'' 404 (Res w)\<rparr>))"
  by (simp add: process_def find_route_none [OF assms])

lemma process_not_allowed:
  assumes "\<exists>route \<in> set routes. pattern_matches route r"
    and "\<forall>route \<in> set routes. \<not> serves route r"
  shows "process routes r w =
    (Returned,
     process_end r 405 (clock w) (w\<lparr>Res := http_Error ''Method not allowed'' 405 (Res w)\<rparr>))"
  using assms(1) by (simp add: process_def find_route_unserved [OF assms(2)])

lemma process_served:
  assumes "\<forall>route \<in> set pre. \<not> serves route r"
    and "FindStringSubmatch (re b) (Path r) = Some matches"
    and "method' b = Method r"
  shows "process (pre @ b # post) r w =
    (case handler b \<lparr>Req = r, Matches = matches\<rparr> w of
       (Panicked err, w1) \<Rightarrow> (Panicked err, w1)
     | (Returned, w1) \<Rightarrow> (Returned, process_end r 200 (clock w) w1))"
  by (simp add: process_def find_route_served [OF assms])

lemma handler_run_served:
  assumes "\<forall>route \<in> set pre. \<not> serves route r"
    and "FindStringSubmatch (re b) (Path r) = Some matches"
    and "method' b = Method r"
  shows "handler_run (pre @ b # post) r w = handler b \<lparr>Req = r, Matches = matches\<rparr> w"
proof -
  have "serves b r" using assms(2,3) by (simp add: serves_def pattern_matches_def)
  with assms(1) have "List.find (\<lambda>route. serves route r) (pre @ b # post) = Some b"
    by (induction pre) simp_all
  with assms(2) show ?thesis by (simp add: handler_run_def)
qed

lemma serves_pattern: "serves route r \<Longrightarrow> pattern_matches route r"
  by (simp add: serves_def)

lemma handler_run_unserved:
  assumes "\<forall>route \<in> set routes. \<not> serves route r"
  shows "handler_run routes r w = (Returned, w)"
proof -
  have "List.find (\<lambda>route. serves route r) routes = None"
    using assms by (simp add: find_None_iff)
  then show ?thesis by (simp add: handler_run_def)
qed

lemma Process_returned:
  "process routes r w = (Returned, w1) \<Longrightarrow> Process routes r w = (Returned, w1)"
  by (simp add: Process_def)

lemma Process_nil_panic:
  "process routes r w = (Panicked None, w1) \<Longrightarrow> Process routes r w = (Returned, w1)"
  by (simp add: Process_def)

lemma Process_recovered:
  assumes "process routes r w = (Panicked (Some err), w1)"
  shows "fst (Process routes r w) = Returned"
    and "Res (snd (Process routes r w)) = http_Error ''Server Error'' 500 (Res w1)"
    and "ServerStat (snd (Process routes r w)) =
           Increment 500 (clock w1 - clock w) (ServerStat w1)"
    and "templateCache (snd (Process routes r w)) = templateCache w1"
  using assms by (simp_all add: Process_def Let_def logRequest_def log_Println_def)

lemma served_split:
  assumes "\<exists>route \<in> set routes. serves route r"
  obtains pre b post matches where "routes = pre @ b # post"
    and "\<forall>route \<in> set pre. \<not> serves route r"
    and "FindStringSubmatch (re b) (Path r) = Some matches"
    and "method' b = Method r"
proof -
  from find_some_ex [OF assms] obtain b where "List.find (\<lambda>route. serves route r) routes = Some b"
    by blast
  from find_first [OF this] obtain pre post where
    d: "routes = pre @ b # post" "serves b r" "\<forall>a \<in> set pre. \<not> serves a r" by blast
  from d(2) obtain matches where "FindStringSubmatch (re b) (Path r) = Some matches"
    and "method' b = Method r" by (auto simp: serves_def pattern_matches_def)
  with d show ?thesis using that by blast
qed

lemma Process_not_found:
  assumes "\<forall>route \<in> set routes. \<not> pattern_matches route r"
  shows "Process routes r w =
    (Returned, process_end r 404 (clock w) (w\<lparr>Res := http_Error ''Not Found'' 404 (Res w)\<rparr>))"
  by (rule Process_returned) (rule process_not_found [OF assms])

lemma Process_not_allowed:
  assumes "\<exists>route \<in> set routes. pattern_matches route r"
    and "\<forall>route \<in> set routes. \<not> serves route r"
  shows "Process routes r w =
    (Returned,
     process_end r 405 (clock w) (w\<lparr>Res := http_Error ''Method not allowed'' 405 (Res w)\<rparr>))"
  by (rule Process_returned) (rule process_not_allowed [OF assms])

lemma Process_handler_returned:
  assumes "\<exists>route \<in> set routes. serves route r"
    and "handler_run routes r w = (Returned, w1)"
  shows "Process routes r w = (Returned, process_end r 200 (clock w) w1)"
proof -
  from assms(1) obtain pre b post matches where d: "routes = pre @ b # post"
    "\<forall>route \<in> set pre. \<not> serves route r"
    "FindStringSubmatch (re b) (Path r) = Some matches" "method' b = Method r"
    by (rule served_split)
  from assms(2) have "handler b \<lparr>Req = r, Matches = matches\<rparr> w = (Returned, w1)"
    by (simp add: d(1) handler_run_served [OF d(2,3,4)])
  then have "process routes r w = (Returned, process_end r 200 (clock w) w1)"
    by (simp add: d(1) process_served [OF d(2,3,4)])
  then show ?thesis by (rule Process_returned)
qed

lemma process_handler_panicked:
  assumes "handler_run routes r w = (Panicked err, w1)"
  shows "process routes r w = (Panicked err, w1)"
proof -
  have "\<exists>route \<in> set routes. serves route r"
  proof (rule ccontr)
    assume "\<not> (\<exists>route \<in> set routes. serves route r)"
    then have "handler_run routes r w = (Returned, w)" by (simp add: handler_run_unserved)
    with assms show False by simp
  qed
  then obtain pre b post matches where d: "routes = pre @ b # post"
    "\<forall>route \<in> set pre. \<not> serves route r"
    "FindStringSubmatch (re b) (Path r) = Some matches" "method' b = Method r"
    by (rule served_split)
  from assms have "handler b \<lparr>Req = r, Matches = matches\<rparr> w = (Panicked err, w1)"
    by (simp add: d(1) handler_run_served [OF d(2,3,4)])
  then show ?thesis
    by (simp add: d(1) process_served [OF d(2,3,4)])
qed

lemma Process_accounts:
  assumes "fst (handler_run routes r w) \<noteq> Panicked None"
  shows "fst (Process routes r w) = Returned \<and>
   ServerStat (snd (Process routes r w)) =
     Increment (verdict routes r w)
       (clock (snd (handler_run routes r w)) - clock w)
       (ServerStat (snd (handler_run routes r w)))"
proof (cases "\<exists>route \<in> set routes. serves route r")
  case True
  obtain out w1 where h: "handler_run routes r w = (out, w1)" by (cases "handler_run routes r w")
  from True have pm: "\<exists>route \<in> set routes. pattern_matches route r"
    using serves_pattern by blast
  show ?thesis
  proof (cases out)
    case Returned
    with h have "Process routes r w = (Returned, process_end r 200 (clock w) w1)"
      using Process_handler_returned [OF True] by simp
    with True pm h Returned show ?thesis
      by (simp add: verdict_def process_end_ServerStat)
  next
    case (Panicked v)
    with h assms obtain err where v: "v = Some err" by (cases v) simp_all
    with h Panicked have "process routes r w = (Panicked (Some err), w1)"
      using process_handler_panicked by simp
    from Process_recovered(1,3) [OF this] True pm h Panicked show ?thesis
      by (simp add: verdict_def)
  qed
next
  case False
  then have none: "\<forall>route \<in> set routes. \<not> serves route r" by blast
  have h: "handler_run routes r w = (Returned, w)" by (rule handler_run_unserved [OF none])
  show ?thesis
  proof (cases "\<exists>route \<in> set routes. pattern_matches route r")
    case True
    from Process_not_allowed [OF True none, of w] True False h show ?thesis
      by (simp add: verdict_def process_end_ServerStat)
  next
    case nf: False
    then have "\<forall>route \<in> set routes. \<not> pattern_matches route r" by blast
    from Process_not_found [OF this, of w] nf h show ?thesis
      by (simp add: verdict_def process_end_ServerStat)
  qed
qed

lemma handler_nil_panic_uncounted:
  assumes "handler_run routes r w = (Panicked None, w1)"
  shows "Process routes r w = (Returned, w1)"
  by (rule Process_nil_panic) (rule process_handler_panicked [OF assms])

lemma http_Error_body: "body (http_Error msg code res) = body res @ msg @ [CHR 0x0A]"
  by (simp add: http_Error_def Write_bytes_def WriteHeader_def Header_Set_def Let_def)

lemma http_Error_status: "status res = None \<Longrightarrow> status (http_Error msg code res) = Some code"
  by (simp add: http_Error_def Write_bytes_def WriteHeader_def Header_Set_def Let_def)

section \<open>The route tables, evaluated\<close>

text \<open>
  The definitions that evaluate a registration and a request on concrete input, and the
  route tables as \<^verbatim>\<open>RegisterRoute\<close> builds them.
\<close>

lemmas regexp_eval = regexp_Compile_def mk_class_def is_alnum_def is_punct_def close_frame_def
  push_atom_def repeat_op_def FindStringSubmatch_def step_char_def advance_def in_class_def
  submatches_def

lemmas register_eval = table_def Get_def Post_def Put_def Delete_def RegisterRoute_def NewRoute_def

lemmas dispatch_eval = Process_def process_def process_end_def logRequest_def log_Println_def
  http_Error_def Write_bytes_def WriteHeader_def Header_Set_def Write_def init_world_def
  init_config_def new_response_def GET_def POST_def PUT_def Increment_def NewStat_def map_get_def
  Itoa_200 Itoa_404 Itoa_405 Itoa_500 final_status_def

lemma routes_get_post_eq:
  "routes_get_post =
     [\<lparr>re = \<lparr>prog = Seq Bol (Seq (Lit CHR ''/'') (Seq (Lit CHR ''x'') Eol)), numSubexp = 0\<rparr>,
       method' = ''GET'', handler = handlerA\<rparr>,
      \<lparr>re = \<lparr>prog = Seq Bol (Seq (Lit CHR ''/'') (Seq (Lit CHR ''x'') Eol)), numSubexp = 0\<rparr>,
       method' = ''POST'', handler = handlerB\<rparr>]"
  by (simp add: routes_get_post_def register_eval regexp_eval)

lemma routes_user_eq:
  "routes_user =
     [\<lparr>re = \<lparr>prog = Seq Bol (Seq (Lit CHR ''/'') (Seq (Lit CHR ''u'') (Seq (Lit CHR ''s'')
              (Seq (Lit CHR ''e'') (Seq (Lit CHR ''r'') Eol))))), numSubexp = 0\<rparr>,
       method' = ''GET'', handler = noSuchUser\<rparr>]"
  by (simp add: routes_user_def register_eval regexp_eval)

lemma routes_panic_eq:
  "routes_panic =
     [\<lparr>re = \<lparr>prog = Seq Bol (Seq (Lit CHR ''/'') (Seq (Lit CHR ''p'') (Seq (Lit CHR ''a'')
              (Seq (Lit CHR ''n'') (Seq (Lit CHR ''i'') (Seq (Lit CHR ''c'') Eol)))))), numSubexp = 0\<rparr>,
       method' = ''GET'', handler = panicking\<rparr>]"
  by (simp add: routes_panic_def register_eval regexp_eval)

lemma routes_partial_eq:
  "routes_partial =
     [\<lparr>re = \<lparr>prog = Seq Bol (Seq (Lit CHR ''/'') (Seq (Lit CHR ''p'') (Seq (Lit CHR ''a'')
              (Seq (Lit CHR ''r'') (Seq (Lit CHR ''t'') (Seq (Lit CHR ''i'') (Seq (Lit CHR ''a'')
              (Seq (Lit CHR ''l'') Eol)))))))), numSubexp = 0\<rparr>,
       method' = ''GET'', handler = writeThenPanic\<rparr>]"
  by (simp add: routes_partial_def register_eval regexp_eval)

lemma readme_routes_eq:
  "readme_routes =
     [\<lparr>re = \<lparr>prog = Seq Bol (Seq (Lit CHR ''/'') (Seq (Lit CHR ''h'') (Seq (Lit CHR ''e'')
              (Seq (Lit CHR ''l'') (Seq (Lit CHR ''l'') (Seq (Lit CHR ''o'') Eol)))))),
            numSubexp = 0\<rparr>,
       method' = ''GET'', handler = hello\<rparr>,
      \<lparr>re = \<lparr>prog = Seq Bol (Seq (Lit CHR ''/'') (Seq (Lit CHR ''s'') (Seq (Lit CHR ''a'')
              (Seq (Lit CHR ''y'') (Seq (Lit CHR ''-'') (Seq (Lit CHR ''h'') (Seq (Lit CHR ''i'')
              (Seq (Lit CHR ''/'')
                (Seq (Group 1 (Plus (CharClass False [(CHR ''a'', CHR ''z''), (CHR ''A'', CHR ''Z'')])))
                  Eol))))))))),
            numSubexp = 1\<rparr>,
       method' = ''GET'', handler = sayHi\<rparr>]"
  by (simp add: readme_routes_def register_eval regexp_eval)

lemma routes_overlap_eq:
  "routes_overlap =
     [\<lparr>re = \<lparr>prog = Seq Bol (Seq (Lit CHR ''/'') (Seq (Lit CHR ''h'') (Seq (Lit CHR ''e'')
              (Seq (Lit CHR ''l'') (Seq (Lit CHR ''l'') (Seq (Lit CHR ''o'') Eol)))))),
            numSubexp = 0\<rparr>,
       method' = ''GET'', handler = handlerA\<rparr>,
      \<lparr>re = \<lparr>prog = Seq Bol (Seq (Lit CHR ''/'')
              (Seq (Group 1 (Plus (CharClass False [(CHR ''a'', CHR ''z'')]))) Eol)),
            numSubexp = 1\<rparr>,
       method' = ''GET'', handler = handlerB\<rparr>]"
  by (simp add: routes_overlap_def register_eval regexp_eval)

lemma routes_alt_eq:
  "routes_alt =
     [\<lparr>re = \<lparr>prog = Alt (Seq Bol (Seq (Lit CHR ''/'') (Lit CHR ''a'')))
                         (Seq (Lit CHR ''/'') (Seq (Lit CHR ''b'') Eol)),
            numSubexp = 0\<rparr>,
       method' = ''GET'', handler = writeMatch0\<rparr>]"
  by (simp add: routes_alt_def register_eval regexp_eval)

section \<open>Requests that no route serves\<close>

text \<open>
  C4. A request whose path matches the pattern of no registered route is answered by
  \<^verbatim>\<open>http.Error(w, "Not Found", 404)\<close>, so with status 404 on the fresh response writer of
  a request; \<^verbatim>\<open>Process\<close> returns, the total and the count under \<^verbatim>\<open>"404"\<close> each grow
  by one, and no other count changes.
\<close>

theorem no_pattern_404:
  assumes "\<forall>route \<in> set routes. FindStringSubmatch (re route) (Path r) = None"
  shows "fst (Process routes r w) = Returned \<and>
    Res (snd (Process routes r w)) = http_Error ''Not Found'' 404 (Res w) \<and>
    (status (Res w) = None \<longrightarrow> status (Res (snd (Process routes r w))) = Some 404) \<and>
    TotalReqs (ServerStat (snd (Process routes r w))) = TotalReqs (ServerStat w) + 1 \<and>
    map_get (Reqs (ServerStat (snd (Process routes r w)))) ''404'' =
      map_get (Reqs (ServerStat w)) ''404'' + 1 \<and>
    (\<forall>k. k \<noteq> ''404'' \<longrightarrow> Reqs (ServerStat (snd (Process routes r w))) k = Reqs (ServerStat w) k)"
proof -
  from assms have "\<forall>route \<in> set routes. \<not> pattern_matches route r"
    by (simp add: pattern_matches_def)
  then have P: "Process routes r w =
      (Returned, process_end r 404 (clock w) (w\<lparr>Res := http_Error ''Not Found'' 404 (Res w)\<rparr>))"
    by (rule Process_not_found)
  have st: "status (Res w) = None \<longrightarrow> status (http_Error ''Not Found'' 404 (Res w)) = Some 404"
    by (simp add: http_Error_def Write_bytes_def WriteHeader_def Header_Set_def Let_def)
  have b: "map_get (Reqs (Increment 404 d s)) ''404'' = map_get (Reqs s) ''404'' + 1" for d s
    using Increment_bucket [of 404 d s] by (simp add: Itoa_404)
  have o: "k \<noteq> ''404'' \<Longrightarrow> Reqs (Increment 404 d s) k = Reqs s k" for k d s
    using Increment_other [of k 404 d s] by (simp add: Itoa_404)
  show ?thesis
    using st by (simp add: P process_end_ServerStat process_end_Res Increment_TotalReqs b o)
qed

theorem no_pattern_404_witness:
  "status (Res (snd (Process routes_get_post (GET ''/nothing'') init_world))) = Some 404 \<and>
   body (Res (snd (Process routes_get_post (GET ''/nothing'') init_world))) = ''Not Found'' @ [CHR 0x0A] \<and>
   TotalReqs (ServerStat (snd (Process routes_get_post (GET ''/nothing'') init_world))) = 1 \<and>
   map_get (Reqs (ServerStat (snd (Process routes_get_post (GET ''/nothing'') init_world)))) ''404'' = 1 \<and>
   Reqs (ServerStat (snd (Process routes_get_post (GET ''/nothing'') init_world))) ''200'' = None"
proof -
  have h: "\<forall>route \<in> set routes_get_post.
      FindStringSubmatch (re route) (Path (GET ''/nothing'')) = None"
    by (simp add: routes_get_post_eq regexp_eval GET_def)
  from no_pattern_404 [OF h, of init_world] show ?thesis
    by (simp add: init_world_def new_response_def NewStat_def map_get_def http_Error_def
        Write_bytes_def WriteHeader_def Header_Set_def)
qed

text \<open>
  C1, as amended. When some route's pattern matches the path and no route has both a
  matching pattern and the method of the request, the dispatcher answers 405, runs no
  handler and counts the request under \<^verbatim>\<open>"405"\<close>. The scan does not stop at a route
  whose pattern matches and whose method differs: when \<open>b\<close> is the first route that
  matches both, after any routes \<open>pre\<close> that do not, the handler of \<open>b\<close> is run.
\<close>

theorem method_not_allowed:
  "((\<exists>route \<in> set routes. pattern_matches route r) \<and> (\<forall>route \<in> set routes. \<not> serves route r) \<longrightarrow>
      process routes r w =
        (Returned,
         process_end r 405 (clock w) (w\<lparr>Res := http_Error ''Method not allowed'' 405 (Res w)\<rparr>)) \<and>
      Process routes r w = process routes r w \<and>
      Res (snd (Process routes r w)) = http_Error ''Method not allowed'' 405 (Res w) \<and>
      (status (Res w) = None \<longrightarrow> status (Res (snd (Process routes r w))) = Some 405) \<and>
      ServerStat (snd (Process routes r w)) = Increment 405 0 (ServerStat w)) \<and>
   ((\<forall>route \<in> set pre. \<not> serves route r) \<and>
    FindStringSubmatch (re b) (Path r) = Some matches \<and> method' b = Method r \<longrightarrow>
      process (pre @ b # post) r w =
        (case handler b \<lparr>Req = r, Matches = matches\<rparr> w of
           (Panicked err, w1) \<Rightarrow> (Panicked err, w1)
         | (Returned, w1) \<Rightarrow> (Returned, process_end r 200 (clock w) w1)))"
proof (intro conjI impI)
  assume a: "(\<exists>route \<in> set routes. pattern_matches route r) \<and> (\<forall>route \<in> set routes. \<not> serves route r)"
  then have p: "process routes r w =
      (Returned, process_end r 405 (clock w) (w\<lparr>Res := http_Error ''Method not allowed'' 405 (Res w)\<rparr>))"
    using process_not_allowed by blast
  then have P: "Process routes r w = process routes r w"
    by (simp add: Process_returned)
  show "process routes r w =
      (Returned, process_end r 405 (clock w) (w\<lparr>Res := http_Error ''Method not allowed'' 405 (Res w)\<rparr>))"
    by (rule p)
  show "Process routes r w = process routes r w" by (rule P)
  show "Res (snd (Process routes r w)) = http_Error ''Method not allowed'' 405 (Res w)"
    by (simp add: P p process_end_Res)
  show "ServerStat (snd (Process routes r w)) = Increment 405 0 (ServerStat w)"
    by (simp add: P p process_end_ServerStat)
  assume "status (Res w) = None"
  then show "status (Res (snd (Process routes r w))) = Some 405"
    by (simp add: P p process_end_Res http_Error_status)
next
  assume "(\<forall>route \<in> set pre. \<not> serves route r) \<and>
    FindStringSubmatch (re b) (Path r) = Some matches \<and> method' b = Method r"
  then show "process (pre @ b # post) r w =
        (case handler b \<lparr>Req = r, Matches = matches\<rparr> w of
           (Panicked err, w1) \<Rightarrow> (Panicked err, w1)
         | (Returned, w1) \<Rightarrow> (Returned, process_end r 200 (clock w) w1))"
    using process_served by blast
qed

theorem method_not_allowed_witness:
  "status (Res (snd (Process routes_get_post (PUT ''/x'') init_world))) = Some 405 \<and>
   body (Res (snd (Process routes_get_post (PUT ''/x'') init_world))) =
     ''Method not allowed'' @ [CHR 0x0A] \<and>
   Reqs (ServerStat (snd (Process routes_get_post (PUT ''/x'') init_world))) ''405'' = Some 1 \<and>
   fst (process routes_get_post (POST ''/x'') init_world) = Returned \<and>
   body (Res (snd (process routes_get_post (POST ''/x'') init_world))) = ''B''"
proof -
  have a: "(\<exists>route \<in> set routes_get_post. pattern_matches route (PUT ''/x'')) \<and>
      (\<forall>route \<in> set routes_get_post. \<not> serves route (PUT ''/x''))"
    by (simp add: routes_get_post_eq serves_def pattern_matches_def regexp_eval PUT_def)
  have b: "(\<forall>route \<in> set [hd routes_get_post]. \<not> serves route (POST ''/x'')) \<and>
      FindStringSubmatch (re (routes_get_post ! 1)) (Path (POST ''/x'')) = Some [''/x''] \<and>
      method' (routes_get_post ! 1) = Method (POST ''/x'')"
    by (simp add: routes_get_post_eq serves_def pattern_matches_def regexp_eval POST_def)
  have l: "routes_get_post = [hd routes_get_post] @ (routes_get_post ! 1) # []"
    by (simp add: routes_get_post_eq)
  from method_not_allowed [of routes_get_post "PUT ''/x''" init_world "[]" "hd routes_get_post" "[]" "[]"] a
  have one: "Res (snd (Process routes_get_post (PUT ''/x'') init_world)) =
      http_Error ''Method not allowed'' 405 (Res init_world)"
    and two: "ServerStat (snd (Process routes_get_post (PUT ''/x'') init_world)) =
      Increment 405 0 (ServerStat init_world)"
    by blast+
  from method_not_allowed [of "[]" "POST ''/x''" init_world "[hd routes_get_post]"
      "routes_get_post ! 1" "[''/x'']" "[]"] b
  have "process ([hd routes_get_post] @ (routes_get_post ! 1) # []) (POST ''/x'') init_world =
      (case handler (routes_get_post ! 1) \<lparr>Req = POST ''/x'', Matches = [''/x'']\<rparr> init_world of
         (Panicked err, w1) \<Rightarrow> (Panicked err, w1)
       | (Returned, w1) \<Rightarrow> (Returned, process_end (POST ''/x'') 200 (clock init_world) w1))"
    by blast
  with l have three: "process routes_get_post (POST ''/x'') init_world =
      (case handler (routes_get_post ! 1) \<lparr>Req = POST ''/x'', Matches = [''/x'']\<rparr> init_world of
         (Panicked err, w1) \<Rightarrow> (Panicked err, w1)
       | (Returned, w1) \<Rightarrow> (Returned, process_end (POST ''/x'') 200 (clock init_world) w1))"
    by simp
  have four: "handler (routes_get_post ! 1) = handlerB"
    by (simp add: routes_get_post_eq)
  show ?thesis
    unfolding one two three four
    by (simp add: handlerB_def Write_def process_end_Res Increment_Reqs Itoa_405
        init_world_def new_response_def NewStat_def map_get_def http_Error_def Write_bytes_def
        WriteHeader_def Header_Set_def)
qed

text \<open>
  C1 as stated fails: with \<^verbatim>\<open>/x\<close> registered for GET and then for POST, a POST to
  \<^verbatim>\<open>/x\<close> runs the handler of the second route and is counted under \<^verbatim>\<open>"200"\<close>; no
  405 is sent.
\<close>

theorem first_pattern_match_counterexample:
  "fst (Process routes_get_post (POST ''/x'') init_world) = Returned \<and>
   status (Res (snd (Process routes_get_post (POST ''/x'') init_world))) = Some 200 \<and>
   body (Res (snd (Process routes_get_post (POST ''/x'') init_world))) = ''B'' \<and>
   Reqs (ServerStat (snd (Process routes_get_post (POST ''/x'') init_world))) ''405'' = None \<and>
   Reqs (ServerStat (snd (Process routes_get_post (POST ''/x'') init_world))) ''200'' = Some 1"
  by (simp add: routes_get_post_eq dispatch_eval regexp_eval handlerA_def handlerB_def)

section \<open>Requests that a route serves\<close>

text \<open>
  C5, as amended. The request is dispatched to the handler of the first route \<open>P\<close>, in
  registration order, whose pattern matches the path and whose method is the request's:
  that handler is called with \<^verbatim>\<open>Matches\<close> set to what \<^verbatim>\<open>FindStringSubmatch\<close> gives for
  the pattern of \<open>P\<close> on the path, the whole match and then the capture groups. The
  pattern \<^verbatim>\<open>/say-hi/([a-zA-Z]+)\<close> on \<^verbatim>\<open>/say-hi/Bob\<close> gives the group \<^verbatim>\<open>Bob\<close>.
\<close>

theorem first_serving_route_dispatched:
  assumes "\<forall>route \<in> set pre. \<not> serves route r"
    and "FindStringSubmatch (re P) (Path r) = Some matches"
    and "method' P = Method r"
  shows "process (pre @ P # post) r w =
      (case handler P \<lparr>Req = r, Matches = matches\<rparr> w of
         (Panicked err, w1) \<Rightarrow> (Panicked err, w1)
       | (Returned, w1) \<Rightarrow> (Returned, process_end r 200 (clock w) w1)) \<and>
    handler_run (pre @ P # post) r w = handler P \<lparr>Req = r, Matches = matches\<rparr> w \<and>
    map_sum id (\<lambda>route. FindStringSubmatch (re route) ''/say-hi/Bob'')
      (NewRoute ''/say-hi/([a-zA-Z]+)'' meth h) = Inr (Some [''/say-hi/Bob'', ''Bob''])"
proof -
  have ex: "map_sum id (\<lambda>route. FindStringSubmatch (re route) ''/say-hi/Bob'')
      (NewRoute ''/say-hi/([a-zA-Z]+)'' meth h) = Inr (Some [''/say-hi/Bob'', ''Bob''])"
    by (simp add: NewRoute_def regexp_eval)
  show ?thesis
    using process_served [OF assms] handler_run_served [OF assms] ex by simp
qed

theorem first_serving_route_dispatched_witness:
  "fst (process readme_routes (GET ''/say-hi/Bob'') readme_world) = Returned \<and>
   status (Res (snd (process readme_routes (GET ''/say-hi/Bob'') readme_world))) = Some 200 \<and>
   body (Res (snd (process readme_routes (GET ''/say-hi/Bob'') readme_world))) = ''Hi Bob''"
proof -
  have a: "\<forall>route \<in> set [hd readme_routes]. \<not> serves route (GET ''/say-hi/Bob'')"
    by (simp add: readme_routes_eq serves_def pattern_matches_def regexp_eval GET_def)
  have b: "FindStringSubmatch (re (readme_routes ! 1)) (Path (GET ''/say-hi/Bob'')) =
      Some [''/say-hi/Bob'', ''Bob'']"
    by (simp add: readme_routes_eq regexp_eval GET_def)
  have c: "method' (readme_routes ! 1) = Method (GET ''/say-hi/Bob'')"
    by (simp add: readme_routes_eq GET_def)
  have l: "[hd readme_routes] @ (readme_routes ! 1) # [] = readme_routes"
    by (simp add: readme_routes_eq)
  have h: "handler (readme_routes ! 1) = sayHi"
    by (simp add: readme_routes_eq)
  from first_serving_route_dispatched [OF a b c, of "[]" readme_world]
  have "process ([hd readme_routes] @ (readme_routes ! 1) # []) (GET ''/say-hi/Bob'') readme_world =
      (case handler (readme_routes ! 1)
              \<lparr>Req = GET ''/say-hi/Bob'', Matches = [''/say-hi/Bob'', ''Bob'']\<rparr> readme_world of
         (Panicked err, w1) \<Rightarrow> (Panicked err, w1)
       | (Returned, w1) \<Rightarrow>
           (Returned, process_end (GET ''/say-hi/Bob'') 200 (clock readme_world) w1))"
    by blast
  then have p: "process readme_routes (GET ''/say-hi/Bob'') readme_world =
      (case sayHi \<lparr>Req = GET ''/say-hi/Bob'', Matches = [''/say-hi/Bob'', ''Bob'']\<rparr> readme_world of
         (Panicked err, w1) \<Rightarrow> (Panicked err, w1)
       | (Returned, w1) \<Rightarrow>
           (Returned, process_end (GET ''/say-hi/Bob'') 200 (clock readme_world) w1))"
    by (simp only: l h)
  show ?thesis
    unfolding p
    by (simp add: sayHi_def WriteTemplate_def renderTemplate_def pongo2_FromFile_def Let_def
        readme_world_def init_world_def init_config_def new_response_def say_hi_template_def
        process_end_Res Write_bytes_def WriteHeader_def Header_Set_def)
qed

text \<open>
  C5 as stated fails: the second route of \<open>routes_overlap\<close> matches the path
  \<^verbatim>\<open>/hello\<close> and the method GET, its handler would write \<^verbatim>\<open>B\<close>, and the request is
  dispatched to the handler of the first route, which writes \<^verbatim>\<open>A\<close>.
\<close>

theorem every_route_counterexample:
  "routes_overlap ! 1 \<in> set routes_overlap \<and>
   pattern_matches (routes_overlap ! 1) (GET ''/hello'') \<and>
   method' (routes_overlap ! 1) = Method (GET ''/hello'') \<and>
   handler (routes_overlap ! 1) = handlerB \<and>
   body (Res (snd (handlerB \<lparr>Req = GET ''/hello'', Matches = [''/hello'', ''hello'']\<rparr> init_world))) = ''B'' \<and>
   fst (Process routes_overlap (GET ''/hello'') init_world) = Returned \<and>
   body (Res (snd (Process routes_overlap (GET ''/hello'') init_world))) = ''A''"
  by (simp add: routes_overlap_eq pattern_matches_def dispatch_eval regexp_eval handlerA_def
      handlerB_def)

text \<open>
  C9. When a route serves the request and its handler returns, the response is what the
  handler left, whatever status it wrote, and the counter is the one the handler left
  after \<^verbatim>\<open>Increment(200, _)\<close>: the count under \<^verbatim>\<open>"200"\<close> grows by one and no other.
\<close>

theorem handler_returned_counts_200:
  assumes "\<exists>route \<in> set routes. serves route r"
    and "handler_run routes r w = (Returned, w1)"
  shows "fst (Process routes r w) = Returned \<and>
    Res (snd (Process routes r w)) = Res w1 \<and>
    ServerStat (snd (Process routes r w)) = Increment 200 (clock w1 - clock w) (ServerStat w1) \<and>
    Reqs (ServerStat (snd (Process routes r w))) ''200'' =
      Some (map_get (Reqs (ServerStat w1)) ''200'' + 1) \<and>
    (\<forall>k. k \<noteq> ''200'' \<longrightarrow> Reqs (ServerStat (snd (Process routes r w))) k = Reqs (ServerStat w1) k)"
proof -
  have P: "Process routes r w = (Returned, process_end r 200 (clock w) w1)"
    by (rule Process_handler_returned [OF assms])
  show ?thesis
    by (simp add: P process_end_ServerStat process_end_Res Increment_Reqs Itoa_200)
qed

theorem handler_returned_counts_200_witness:
  "status (Res (snd (Process routes_user (GET ''/user'') init_world))) = Some 404 \<and>
   body (Res (snd (Process routes_user (GET ''/user'') init_world))) = ''no such user'' @ [CHR 0x0A] \<and>
   Reqs (ServerStat (snd (Process routes_user (GET ''/user'') init_world))) ''200'' = Some 1 \<and>
   Reqs (ServerStat (snd (Process routes_user (GET ''/user'') init_world))) ''404'' = None"
proof -
  have s: "\<exists>route \<in> set routes_user. serves route (GET ''/user'')"
    by (simp add: routes_user_eq serves_def pattern_matches_def regexp_eval GET_def)
  have h: "handler_run routes_user (GET ''/user'') init_world =
      (Returned, init_world\<lparr>Res := http_Error ''no such user'' 404 (Res init_world)\<rparr>)"
    by (simp add: routes_user_eq handler_run_def serves_def pattern_matches_def regexp_eval
        GET_def noSuchUser_def)
  from handler_returned_counts_200 [OF s h] show ?thesis
    by (simp add: Increment_Reqs Itoa_200 init_world_def new_response_def NewStat_def map_get_def
        http_Error_def Write_bytes_def WriteHeader_def Header_Set_def)
qed

section \<open>Panics\<close>

lemma WriteTemplate_panics:
  "fst (renderTemplate (TemplateDir (ServerConfig w) @ ''/'' @ filename) data
          (w\<lparr>Res := Header_Set ''Content-Type'' ''text/html; charset=utf-8'' (Res w)\<rparr>)) = Inl e \<Longrightarrow>
   fst (WriteTemplate filename data c w) = Panicked (Some e)"
  by (cases "renderTemplate (TemplateDir (ServerConfig w) @ ''/'' @ filename) data
          (w\<lparr>Res := Header_Set ''Content-Type'' ''text/html; charset=utf-8'' (Res w)\<rparr>)")
    (simp add: WriteTemplate_def Let_def)

lemma WriteJson_panics:
  "marshal data = Inl e \<Longrightarrow> fst (WriteJson marshal data c w) = Panicked (Some e)"
  by (simp add: WriteJson_def Let_def)

text \<open>
  C3, as amended. When the handler panics with a value that is not nil
  (\<^verbatim>\<open>WriteTemplate\<close> panics so when the template fails to load or to execute,
  \<^verbatim>\<open>WriteJson\<close> when the value does not serialise: the two lemmas above),
  \<^verbatim>\<open>Process\<close> still returns: the panic stops at the deferred \<^verbatim>\<open>recover\<close>.
  \<^verbatim>\<open>http.Error(w, "Server Error", 500)\<close> is applied to the response as the handler left
  it: the generic line is added after what the handler had written, and the status is
  500 when the handler had written nothing. The request is counted once, under
  \<^verbatim>\<open>"500"\<close>.
\<close>

theorem panic_recovered_500:
  assumes "handler_run routes r w = (Panicked (Some err), w1)"
  shows "fst (Process routes r w) = Returned \<and>
    Res (snd (Process routes r w)) = http_Error ''Server Error'' 500 (Res w1) \<and>
    body (Res (snd (Process routes r w))) = body (Res w1) @ ''Server Error'' @ [CHR 0x0A] \<and>
    (status (Res w1) = None \<longrightarrow> status (Res (snd (Process routes r w))) = Some 500) \<and>
    ServerStat (snd (Process routes r w)) = Increment 500 (clock w1 - clock w) (ServerStat w1) \<and>
    TotalReqs (ServerStat (snd (Process routes r w))) = TotalReqs (ServerStat w1) + 1 \<and>
    map_get (Reqs (ServerStat (snd (Process routes r w)))) ''500'' =
      map_get (Reqs (ServerStat w1)) ''500'' + 1"
proof -
  have p: "process routes r w = (Panicked (Some err), w1)"
    by (rule process_handler_panicked [OF assms])
  have b: "map_get (Reqs (Increment 500 d s)) ''500'' = map_get (Reqs s) ''500'' + 1" for d s
    using Increment_bucket [of 500 d s] by (simp add: Itoa_500)
  show ?thesis
    using Process_recovered [OF p]
    by (simp add: http_Error_body http_Error_status Increment_TotalReqs b)
qed

theorem panic_recovered_500_witness:
  "fst (Process routes_panic (GET ''/panic'') init_world) = Returned \<and>
   status (Res (snd (Process routes_panic (GET ''/panic'') init_world))) = Some 500 \<and>
   body (Res (snd (Process routes_panic (GET ''/panic'') init_world))) = ''Server Error'' @ [CHR 0x0A] \<and>
   Reqs (ServerStat (snd (Process routes_panic (GET ''/panic'') init_world))) ''500'' = Some 1 \<and>
   TotalReqs (ServerStat (snd (Process routes_panic (GET ''/panic'') init_world))) = 1 \<and>
   fst (Process readme_routes (GET ''/say-hi/Bob'') init_world) = Returned \<and>
   status (Res (snd (Process readme_routes (GET ''/say-hi/Bob'') init_world))) = Some 500 \<and>
   body (Res (snd (Process readme_routes (GET ''/say-hi/Bob'') init_world))) =
     ''Server Error'' @ [CHR 0x0A] \<and>
   Reqs (ServerStat (snd (Process readme_routes (GET ''/say-hi/Bob'') init_world))) ''500'' = Some 1"
proof -
  have h1: "handler_run routes_panic (GET ''/panic'') init_world =
      (Panicked (Some ''boom''), init_world)"
    by (simp add: routes_panic_eq handler_run_def serves_def pattern_matches_def regexp_eval
        GET_def panicking_def)
  have h2: "handler_run readme_routes (GET ''/say-hi/Bob'') init_world =
      (Panicked (Some ''no such file or directory''),
       init_world\<lparr>Res := Header_Set ''Content-Type'' ''text/html; charset=utf-8'' (Res init_world),
                   loads := [''www/templates/say-hi.html'']\<rparr>)"
    by (simp add: readme_routes_eq handler_run_def serves_def pattern_matches_def regexp_eval
        GET_def sayHi_def WriteTemplate_def renderTemplate_def pongo2_FromFile_def
        init_world_def init_config_def)
  from panic_recovered_500 [OF h1] panic_recovered_500 [OF h2] show ?thesis
    by (simp add: Increment_Reqs Itoa_500 init_world_def new_response_def NewStat_def map_get_def
        http_Error_def Write_bytes_def WriteHeader_def Header_Set_def Increment_TotalReqs)
qed

text \<open>
  C3 as stated fails: the handler of \<^verbatim>\<open>/partial\<close> writes \<^verbatim>\<open>A\<close> and then panics. The
  client has the status 200 that the write sent, and a body that is the handler's
  \<^verbatim>\<open>A\<close> followed by the generic line, not a generic 500 response; the request is
  counted under \<^verbatim>\<open>"500"\<close>.
\<close>

theorem panic_after_write_counterexample:
  "fst (Process routes_partial (GET ''/partial'') init_world) = Returned \<and>
   status (Res (snd (Process routes_partial (GET ''/partial'') init_world))) = Some 200 \<and>
   final_status (Res (snd (Process routes_partial (GET ''/partial'') init_world))) = 200 \<and>
   body (Res (snd (Process routes_partial (GET ''/partial'') init_world))) =
     ''A'' @ ''Server Error'' @ [CHR 0x0A] \<and>
   Reqs (ServerStat (snd (Process routes_partial (GET ''/partial'') init_world))) ''500'' = Some 1 \<and>
   Reqs (ServerStat (snd (Process routes_partial (GET ''/partial'') init_world))) ''200'' = None"
  by (simp add: routes_partial_eq dispatch_eval regexp_eval writeThenPanic_def)

section \<open>One count for every request\<close>

text \<open>
  C2, as amended. For a request whose handler does not panic with the value nil,
  \<^verbatim>\<open>Process\<close> returns, and the counter it leaves is the counter the handler left (the
  one it found, when no handler ran) after exactly one \<^verbatim>\<open>Increment\<close>, called with the
  dispatcher's own code: 404 when no pattern matches, 405 when a pattern matches and no
  route serves the request, 200 when the handler returned and 500 when it panicked. The
  code is not read from the response.
\<close>

theorem Process_increments_once:
  assumes "fst (handler_run routes r w) \<noteq> Panicked None"
  shows "fst (Process routes r w) = Returned \<and>
   ServerStat (snd (Process routes r w)) =
     Increment (verdict routes r w)
       (clock (snd (handler_run routes r w)) - clock w)
       (ServerStat (snd (handler_run routes r w))) \<and>
   TotalReqs (ServerStat (snd (Process routes r w))) =
     TotalReqs (ServerStat (snd (handler_run routes r w))) + 1"
  using Process_accounts [OF assms] by (simp add: Increment_TotalReqs)

theorem Process_increments_once_witness:
  "fst (Process routes_get_post (PUT ''/x'') init_world) = Returned \<and>
   verdict routes_get_post (PUT ''/x'') init_world = 405 \<and>
   TotalReqs (ServerStat (snd (Process routes_get_post (PUT ''/x'') init_world))) = 1 \<and>
   Reqs (ServerStat (snd (Process routes_get_post (PUT ''/x'') init_world))) ''405'' = Some 1 \<and>
   Reqs (ServerStat (snd (Process routes_get_post (PUT ''/x'') init_world))) ''200'' = None \<and>
   fst (Process routes_panic (GET ''/panic'') init_world) = Returned \<and>
   verdict routes_panic (GET ''/panic'') init_world = 500 \<and>
   TotalReqs (ServerStat (snd (Process routes_panic (GET ''/panic'') init_world))) = 1 \<and>
   Reqs (ServerStat (snd (Process routes_panic (GET ''/panic'') init_world))) ''500'' = Some 1"
proof -
  have v: "verdict routes_get_post (PUT ''/x'') init_world = 405"
    by (simp add: verdict_def routes_get_post_eq serves_def pattern_matches_def regexp_eval PUT_def)
  have h: "handler_run routes_get_post (PUT ''/x'') init_world = (Returned, init_world)"
    by (simp add: handler_run_def routes_get_post_eq serves_def pattern_matches_def regexp_eval
        PUT_def)
  have h': "handler_run routes_panic (GET ''/panic'') init_world =
      (Panicked (Some ''boom''), init_world)"
    by (simp add: routes_panic_eq handler_run_def serves_def pattern_matches_def regexp_eval
        GET_def panicking_def)
  have v': "verdict routes_panic (GET ''/panic'') init_world = 500"
    unfolding verdict_def h'
    by (simp add: routes_panic_eq serves_def pattern_matches_def regexp_eval GET_def)
  have n: "fst (handler_run routes_get_post (PUT ''/x'') init_world) \<noteq> Panicked None"
    by (simp add: h)
  have n': "fst (handler_run routes_panic (GET ''/panic'') init_world) \<noteq> Panicked None"
    by (simp add: h')
  from Process_increments_once [OF n] Process_increments_once [OF n'] show ?thesis
    unfolding v h v' h'
    by (simp add: Increment_Reqs Increment_TotalReqs Itoa_405 Itoa_500 init_world_def NewStat_def
        map_get_def)
qed

text \<open>
  C2 as stated fails: the handler of \<^verbatim>\<open>/user\<close> answers 404 and returns, the client
  sees the status 404, and the one \<^verbatim>\<open>Increment\<close> is made with 200.
\<close>

theorem final_status_counterexample:
  "fst (Process routes_user (GET ''/user'') init_world) = Returned \<and>
   final_status (Res (snd (Process routes_user (GET ''/user'') init_world))) = 404 \<and>
   TotalReqs (ServerStat (snd (Process routes_user (GET ''/user'') init_world))) = 1 \<and>
   Reqs (ServerStat (snd (Process routes_user (GET ''/user'') init_world))) ''404'' = None \<and>
   Reqs (ServerStat (snd (Process routes_user (GET ''/user'') init_world))) ''200'' = Some 1"
  by (simp add: routes_user_eq dispatch_eval regexp_eval noSuchUser_def)

section \<open>The template cache\<close>









section \<open>Anchoring of the patterns\<close>

lemma NewRoute_fatal:
  "regexp_Compile (''^'' @ pattern @ ''$'') = Inl err \<Longrightarrow>
   NewRoute pattern meth h = Inl err \<and> RegisterRoute pattern meth h routes = Inl err"
  by (simp add: NewRoute_def RegisterRoute_def)

lemma NewRoute_anchored_whole:
  "NewRoute pattern meth h = Inr route \<Longrightarrow> anchored (prog (re route)) \<Longrightarrow>
   FindStringSubmatch (re route) path = Some ms \<Longrightarrow> hd ms = path"
  by (rule anchored_whole)

text \<open>
  C8 at the pattern \<^verbatim>\<open>/a|/b\<close>. \<^verbatim>\<open>NewRoute\<close> compiles \<^verbatim>\<open>^/a|/b$\<close>, which is
  \<^verbatim>\<open>^/a\<close> or \<^verbatim>\<open>/b$\<close>: the route matches \<^verbatim>\<open>/abc\<close> on its first two characters and
  \<^verbatim>\<open>/zzz/b\<close> on its last two, paths that the pattern, taken as a whole, does not match
  entirely (the route of \<^verbatim>\<open>(/a|/b)\<close> does not match \<^verbatim>\<open>/abc\<close>), and the dispatcher
  serves \<^verbatim>\<open>/abc\<close> with status 200. When the anchored string does not compile, as for
  \<^verbatim>\<open>/(x\<close>, there is no route. The pattern that is a single backslash does not
  compile, yet between \<^verbatim>\<open>^\<close> and \<^verbatim>\<open>$\<close> it does, as the route of the path \<^verbatim>\<open>$\<close>.
\<close>

theorem anchoring_by_concatenation:
  "map_sum id (\<lambda>route. prog (re route)) (NewRoute ''/a|/b'' ''GET'' writeMatch0) =
     Inr (Alt (Seq Bol (Seq (Lit CHR ''/'') (Lit CHR ''a'')))
              (Seq (Lit CHR ''/'') (Seq (Lit CHR ''b'') Eol))) \<and>
   map_sum id (\<lambda>route. FindStringSubmatch (re route) ''/abc'')
     (NewRoute ''/a|/b'' ''GET'' writeMatch0) = Inr (Some [''/a'']) \<and>
   map_sum id (\<lambda>route. FindStringSubmatch (re route) ''/zzz/b'')
     (NewRoute ''/a|/b'' ''GET'' writeMatch0) = Inr (Some [''/b'']) \<and>
   map_sum id (\<lambda>route. FindStringSubmatch (re route) ''/abc'')
     (NewRoute ''(/a|/b)'' ''GET'' writeMatch0) = Inr None \<and>
   fst (Process routes_alt (GET ''/abc'') init_world) = Returned \<and>
   status (Res (snd (Process routes_alt (GET ''/abc'') init_world))) = Some 200 \<and>
   Reqs (ServerStat (snd (Process routes_alt (GET ''/abc'') init_world))) ''200'' = Some 1 \<and>
   Reqs (ServerStat (snd (Process routes_alt (GET ''/abc'') init_world))) ''404'' = None \<and>
   RegisterRoute ''/(x'' ''GET'' writeMatch0 [] = Inl (Syntax_Error ''missing closing )'') \<and>
   regexp_Compile [CHR 0x5C] = Inl (Syntax_Error ''trailing backslash at end of expression'') \<and>
   map_sum id (\<lambda>route. FindStringSubmatch (re route) ''$'')
     (NewRoute [CHR 0x5C] ''GET'' writeMatch0) = Inr (Some [''$''])"
  by (simp add: routes_alt_eq NewRoute_def RegisterRoute_def dispatch_eval regexp_eval
      writeMatch0_def)

text \<open>
  C10 at the pattern \<^verbatim>\<open>/a|/b\<close> and the path \<^verbatim>\<open>/abc\<close>: the request is dispatched,
  \<^verbatim>\<open>Matches\<close> has one entry, as the pattern has no group, and \<^verbatim>\<open>Matches[0]\<close> is
  \<^verbatim>\<open>/a\<close>, not the path.
\<close>

theorem matches0_not_path:
  "find_route routes_alt (GET ''/abc'') False False None [] =
     (True, True, Some (hd routes_alt), [''/a'']) \<and>
   numSubexp (re (hd routes_alt)) = 0 \<and>
   fst (Process routes_alt (GET ''/abc'') init_world) = Returned \<and>
   body (Res (snd (Process routes_alt (GET ''/abc'') init_world))) = ''/a''"
  by (simp add: routes_alt_eq dispatch_eval regexp_eval writeMatch0_def)

end
